theory Spec2Isabelle
  imports Complex_Main "HOL-Library.Word"
begin

section \<open>JavaScript values used by the quiz component\<close>

text \<open>
  A JavaScript string is a sequence of 16-bit code units; \<open>===\<close> on strings compares
  these sequences. \<open>str\<close> writes an ASCII literal as such a sequence.
\<close>

type_synonym jsstring = "16 word list"

definition str :: "string \<Rightarrow> jsstring" where
  "str s = map (\<lambda>c. word_of_nat (of_char c)) s"

text \<open>
  A slot of type \<open>T | null\<close>. Reading an array beyond its length gives \<open>undefined\<close>,
  which is a third value at run time, so it is part of the model.
\<close>

datatype 'a jsval = Undefined | Null | Val 'a

text \<open>\<open>xs[i]\<close>: a read beyond the length is \<open>undefined\<close>.\<close>

definition js_get :: "'a jsval list \<Rightarrow> nat \<Rightarrow> 'a jsval" where
  "js_get xs i = (if i < length xs then xs ! i else Undefined)"

text \<open>
  \<open>const ys = [...xs]; ys[i] = v\<close>: a write beyond the length extends the copy, the
  slots in between read as \<open>undefined\<close>.
\<close>

definition js_set :: "'a jsval list \<Rightarrow> nat \<Rightarrow> 'a jsval \<Rightarrow> 'a jsval list" where
  "js_set xs i v =
     (if i < length xs then xs[i := v]
      else xs @ replicate (i - length xs) Undefined @ [v])"

text \<open>
  \<open>String.prototype.trim\<close> removes, at both ends, the code units of WhiteSpace and
  LineTerminator of ECMAScript: TAB, LF, VT, FF, CR, SP, NBSP, U+1680, U+2000 to U+200A,
  U+2028, U+2029, U+202F, U+205F, U+3000 and U+FEFF.
\<close>

definition isWhiteSpace :: "16 word \<Rightarrow> bool" where
  "isWhiteSpace c =
     (c \<in> {0x0009, 0x000A, 0x000B, 0x000C, 0x000D, 0x0020, 0x00A0, 0x1680,
            0x2000, 0x2001, 0x2002, 0x2003, 0x2004, 0x2005, 0x2006, 0x2007,
            0x2008, 0x2009, 0x200A, 0x2028, 0x2029, 0x202F, 0x205F, 0x3000, 0xFEFF})"

definition trim :: "jsstring \<Rightarrow> jsstring" where
  "trim s = rev (dropWhile isWhiteSpace (rev (dropWhile isWhiteSpace s)))"

text \<open>
  \<open>s.replace(/[.,]$/, '')\<close>: the pattern has no flag, so \<open>$\<close> is the end of the
  input and the only possible match is a last code unit that is \<open>.\<close> (0x2E) or
  \<open>,\<close> (0x2C); it is removed once.
\<close>

definition replaceTrailingPunct :: "jsstring \<Rightarrow> jsstring" where
  "replaceTrailingPunct s =
     (if s \<noteq> [] \<and> (last s = 0x2E \<or> last s = 0x2C) then butlast s else s)"

definition normalize :: "jsstring \<Rightarrow> jsstring" where
  "normalize s = replaceTrailingPunct (trim s)"

section \<open>JavaScript numbers\<close>

text \<open>
  A JavaScript number is an IEEE-754 binary64 value. The component forms numbers that are
  not negative only (two counts and the constant 100), so the model has the not-a-number,
  the positive infinity, and the finite values, each given by the rational it denotes; a
  negative zero cannot arise. A count is below \<open>2 ^ 32\<close>, the bound on the length of an
  array, and is therefore its own binary64 value.
\<close>

datatype double = NaN | PosInfinity | Fin rat

definition pow2 :: "int \<Rightarrow> rat" where
  "pow2 e = (if 0 \<le> e then 2 ^ nat e else 1 / 2 ^ nat (- e))"

text \<open>
  The binary exponent of a value that is not negative: the greatest \<open>e\<close> from 1023 down
  to -1021 with \<open>2 ^ e \<le> x\<close>, and -1022 (the exponent of the least normal and of the
  subnormal numbers) when there is none.
\<close>

function exponentFrom :: "int \<Rightarrow> rat \<Rightarrow> int" where
  "exponentFrom e x =
     (if e \<le> - 1022 then - 1022
      else if pow2 e \<le> x then e
      else exponentFrom (e - 1) x)"
  by pat_completeness auto
termination
  by (relation "measure (\<lambda>(e, x). nat (e + 1022))") auto

declare exponentFrom.simps [simp del]

definition exponent :: "rat \<Rightarrow> int" where
  "exponent x = exponentFrom 1023 x"

text \<open>Rounding to the nearest integer, a tie to the even one.\<close>

definition roundHalfEven :: "rat \<Rightarrow> int" where
  "roundHalfEven m =
     (let f = \<lfloor>m\<rfloor>; r = m - of_int f
      in if r < 1 / 2 then f
         else if 1 / 2 < r then f + 1
         else if even f then f else f + 1)"

text \<open>
  The binary64 value of an exact result that is not negative, in the default rounding
  mode (to nearest, ties to even): the significand has 53 bits, so the result is the
  multiple of \<open>2 ^ (e - 52)\<close> nearest to \<open>x\<close>, and it is the infinity when the rounded
  value reaches \<open>2 ^ 1024\<close>.
\<close>

definition binary64 :: "rat \<Rightarrow> double" where
  "binary64 x =
     (let ulp = pow2 (exponent x - 52);
          y = of_int (roundHalfEven (x / ulp)) * ulp
      in if pow2 1024 \<le> y then PosInfinity else Fin y)"

text \<open>The operators \<open>/\<close> and \<open>*\<close> on numbers that are not negative.\<close>

fun double_divide :: "double \<Rightarrow> double \<Rightarrow> double" where
  "double_divide (Fin a) (Fin b) =
     (if b = 0 then (if a = 0 then NaN else PosInfinity) else binary64 (a / b))"
| "double_divide (Fin a) PosInfinity = Fin 0"
| "double_divide PosInfinity (Fin b) = PosInfinity"
| "double_divide a b = NaN"

fun double_times :: "double \<Rightarrow> double \<Rightarrow> double" where
  "double_times (Fin a) (Fin b) = binary64 (a * b)"
| "double_times (Fin a) PosInfinity = (if a = 0 then NaN else PosInfinity)"
| "double_times PosInfinity (Fin b) = (if b = 0 then NaN else PosInfinity)"
| "double_times PosInfinity PosInfinity = PosInfinity"
| "double_times a b = NaN"

section \<open>The answer matcher\<close>

text \<open>
  \<open>isAnswerMatch(option, answer)\<close> of Quiz.tsx. Its first line is \<open>if (!option) return
  false\<close>: \<open>null\<close>, \<open>undefined\<close> and the empty string are the falsy values of the
  parameter's type.
\<close>

fun isAnswerMatch :: "jsstring jsval \<Rightarrow> jsstring \<Rightarrow> bool" where
  "isAnswerMatch Undefined answer = False"
| "isAnswerMatch Null answer = False"
| "isAnswerMatch (Val option) answer =
     (if option = [] then False
      else if option = answer then True
      else let normOption = normalize option; normAnswer = normalize answer
           in normOption = normAnswer)"

text \<open>
  The matcher as the specification words it (section 4.2), for comparison with the code:
  an absent candidate gives false, an exactly equal candidate gives true, otherwise the
  normalised forms are compared.
\<close>

definition spec_matches :: "jsstring jsval \<Rightarrow> jsstring \<Rightarrow> bool" where
  "spec_matches candidate canonicalAnswer =
     (case candidate of
        Val c \<Rightarrow> c = canonicalAnswer \<or> normalize c = normalize canonicalAnswer
      | _ \<Rightarrow> False)"

section \<open>Questions, session state and scoring report\<close>

text \<open>
  \<open>QuestionType\<close> and \<open>QuizQuestion\<close> of types.ts. The optional fields that only the
  rendering reads (image, passage, translations) are left out; \<open>options\<close> is optional
  (\<open>None\<close> when the property is missing).
\<close>

datatype QuestionType = MultipleChoice | ShortAnswer | Ox

record QuizQuestion =
  question :: jsstring
  questionType :: QuestionType
  options :: "jsstring list option"
  answer :: jsstring
  explanation :: jsstring

text \<open>
  The arguments of one call of \<open>onSubmit(score, correctAnswers, totalQuestions,
  userAnswers, correctness)\<close>. The last parameter is declared \<open>(boolean | null)[]\<close>.
\<close>

record report =
  score :: double
  correctAnswers :: nat
  totalQuestions :: nat
  answers :: "jsstring jsval list"
  correctness :: "bool jsval list"

text \<open>
  The \<open>useState\<close> slices of the \<open>Quiz\<close> component that its decisions read, and the
  calls of the \<open>onSubmit\<close> callback made so far (\<open>submitted\<close>). The audio, script and
  translation slices only drive the display.
\<close>

record state =
  currentQuestionIndex :: nat
  userAnswers :: "jsstring jsval list"
  checkedStates :: "bool jsval list"
  showResults :: bool
  tempShortAnswer :: jsstring
  selfAssessedCorrectness :: "bool jsval list"
  submitted :: "report list"

text \<open>The initial values of the slices: \<open>Array(questions.length).fill(...)\<close>.\<close>

definition initialState :: "QuizQuestion list \<Rightarrow> state" where
  "initialState questions =
     \<lparr> currentQuestionIndex = 0,
       userAnswers = replicate (length questions) Null,
       checkedStates = replicate (length questions) (Val False),
       showResults = False,
       tempShortAnswer = [],
       selfAssessedCorrectness = replicate (length questions) Null,
       submitted = [] \<rparr>"

subsection \<open>Constants of one render\<close>

text \<open>\<open>questions[currentQuestionIndex]\<close>; \<open>None\<close> is \<open>undefined\<close>.\<close>

definition currentQuestion :: "QuizQuestion list \<Rightarrow> state \<Rightarrow> QuizQuestion option" where
  "currentQuestion questions st =
     (if currentQuestionIndex st < length questions
      then Some (questions ! currentQuestionIndex st) else None)"

definition userAnswer :: "state \<Rightarrow> jsstring jsval" where
  "userAnswer st = js_get (userAnswers st) (currentQuestionIndex st)"

text \<open>
  \<open>checkedStates[currentQuestionIndex]\<close>. Every use of the constant is a truth test, and
  \<open>undefined\<close> is falsy.
\<close>

definition isAnswerChecked :: "state \<Rightarrow> bool" where
  "isAnswerChecked st = (js_get (checkedStates st) (currentQuestionIndex st) = Val True)"

definition isMcOrOx :: "QuizQuestion \<Rightarrow> bool" where
  "isMcOrOx q = (questionType q = MultipleChoice \<or> questionType q = Ox)"

definition hasAnswer :: "QuizQuestion \<Rightarrow> state \<Rightarrow> bool" where
  "hasAnswer q st =
     (if isMcOrOx q then userAnswer st \<noteq> Null else trim (tempShortAnswer st) \<noteq> [])"

definition isCheckAnswerDisabled :: "QuizQuestion \<Rightarrow> state \<Rightarrow> bool" where
  "isCheckAnswerDisabled q st = (\<not> hasAnswer q st)"

definition isNextButtonDisabled :: "QuizQuestion \<Rightarrow> state \<Rightarrow> bool" where
  "isNextButtonDisabled q st =
     (isAnswerChecked st \<and> \<not> isMcOrOx q
      \<and> js_get (selfAssessedCorrectness st) (currentQuestionIndex st) = Null)"

text \<open>
  The option buttons that \<open>renderQuestionInput\<close> draws for a multiple-choice or ox
  question: an ox question without options gets O and X; a question that still has no
  options shows an error message and no button.
\<close>

definition renderedOptions :: "QuizQuestion \<Rightarrow> jsstring list" where
  "renderedOptions q =
     (let isOx = (questionType q = Ox);
          opts = (if isOx \<and> (options q = None \<or> options q = Some [])
                  then Some [str ''O'', str ''X''] else options q)
      in case opts of None \<Rightarrow> [] | Some os \<Rightarrow> os)"

subsection \<open>The event handlers\<close>

text \<open>
  Each handler is the state update of the function of the same name in Quiz.tsx. A
  handler is a closure of one render, so \<open>handleCheckAnswer\<close> takes the render's
  \<open>currentQuestion\<close>.
\<close>

definition handleAnswerSelect :: "jsstring \<Rightarrow> state \<Rightarrow> state" where
  "handleAnswerSelect option st =
     (if isAnswerChecked st then st
      else st\<lparr>userAnswers := js_set (userAnswers st) (currentQuestionIndex st) (Val option)\<rparr>)"

definition handleShortAnswerChange :: "jsstring \<Rightarrow> state \<Rightarrow> state" where
  "handleShortAnswerChange v st =
     (if isAnswerChecked st then st else st\<lparr>tempShortAnswer := v\<rparr>)"

definition handleCheckAnswer :: "QuizQuestion \<Rightarrow> state \<Rightarrow> state" where
  "handleCheckAnswer q st =
     (let st1 = (if \<not> isMcOrOx q
                 then st\<lparr>userAnswers :=
                        js_set (userAnswers st) (currentQuestionIndex st) (Val (tempShortAnswer st))\<rparr>
                 else st)
      in st1\<lparr>checkedStates := js_set (checkedStates st) (currentQuestionIndex st) (Val True)\<rparr>)"

definition handleSelfAssessment :: "bool \<Rightarrow> state \<Rightarrow> state" where
  "handleSelfAssessment isCorrect st =
     st\<lparr>selfAssessedCorrectness :=
          js_set (selfAssessedCorrectness st) (currentQuestionIndex st) (Val isCorrect)\<rparr>"

definition handlePrev :: "state \<Rightarrow> state" where
  "handlePrev st =
     (if currentQuestionIndex st > 0
      then st\<lparr>currentQuestionIndex := currentQuestionIndex st - 1\<rparr> else st)"

text \<open>\<open>questions.map((question, index) => ...)\<close> of \<open>handleNext\<close>.\<close>

definition calculatedCorrectness :: "QuizQuestion list \<Rightarrow> state \<Rightarrow> bool list" where
  "calculatedCorrectness questions st =
     map (\<lambda>(question, index).
            let ans = js_get (userAnswers st) index
            in if \<not> isMcOrOx question
               then js_get (selfAssessedCorrectness st) index = Val True
               else isAnswerMatch ans (answer question))
         (zip questions [0..<length questions])"

text \<open>
  \<open>handleNext\<close>: below the last index it moves on; otherwise it computes the results,
  sets \<open>showResults\<close> and calls \<open>onSubmit\<close>. The comparison is made on integers, since
  \<open>questions.length - 1\<close> is \<open>-1\<close> for an empty list.
\<close>

definition handleNext :: "QuizQuestion list \<Rightarrow> state \<Rightarrow> state" where
  "handleNext questions st =
     (if int (currentQuestionIndex st) < int (length questions) - 1
      then st\<lparr>currentQuestionIndex := currentQuestionIndex st + 1\<rparr>
      else
        let cc = calculatedCorrectness questions st;
            correctCount = length (filter (\<lambda>c. c = True) cc);
            scorePercentage =
              double_times
                (double_divide (Fin (of_nat correctCount)) (Fin (of_nat (length questions))))
                (Fin 100)
        in st\<lparr>showResults := True,
              submitted := submitted st @
                [\<lparr> score = scorePercentage, correctAnswers = correctCount,
                   totalQuestions = length questions, answers = userAnswers st,
                   correctness = map Val cc \<rparr>]\<rparr>)"

subsection \<open>The effect that synchronises the draft\<close>

datatype error = TypeError

text \<open>
  The \<open>useEffect\<close> with dependencies \<open>[currentQuestionIndex, userAnswers,
  checkedStates, questions]\<close>: it sets the draft to \<open>savedAnswer || ''\<close> for a question
  that is neither multiple-choice nor ox, and to the empty string otherwise. Reading
  \<open>questionType\<close> of an undefined question throws.
\<close>

definition syncTempShortAnswer :: "QuizQuestion list \<Rightarrow> state \<Rightarrow> error + state" where
  "syncTempShortAnswer questions st =
     (case currentQuestion questions st of
        None \<Rightarrow> Inl TypeError
      | Some q \<Rightarrow>
          let savedAnswer = userAnswer st
          in if \<not> isMcOrOx q
             then Inr (st\<lparr>tempShortAnswer := (case savedAnswer of Val s \<Rightarrow> s | _ \<Rightarrow> [])\<rparr>)
             else Inr (st\<lparr>tempShortAnswer := []\<rparr>))"

subsection \<open>The component as a transition system\<close>

text \<open>
  The events the learner can cause: a click on the option button number \<open>k\<close>, an input
  in the text field, and clicks on the buttons for checking, self-assessment (correct or
  wrong), previous and next.
\<close>

datatype event =
    ClickOption nat
  | ChangeShortAnswer jsstring
  | ClickCheckAnswer
  | ClickSelfAssessment bool
  | ClickPrev
  | ClickNext

text \<open>
  An event reaches its handler only when its control is drawn and not disabled:
  \<^item> option buttons exist for multiple-choice and ox questions, \<open>disabled={isAnswerChecked}\<close>;
  \<^item> the text field exists for the other questions, \<open>disabled={isAnswerChecked}\<close>;
  \<^item> the check button is drawn while the question is unchecked,
    \<open>disabled={isCheckAnswerDisabled}\<close>;
  \<^item> the self-assessment buttons are drawn for a checked question that is neither
    multiple-choice nor ox while its self-assessment is \<open>null\<close>;
  \<^item> the previous button has \<open>disabled={currentQuestionIndex === 0}\<close>;
  \<^item> the next button is drawn once the question is checked,
    \<open>disabled={isNextButtonDisabled}\<close>.
  After a handler that replaced the answers, the checked states or the index, the effect
  runs before the next event.
\<close>

fun dispatch :: "QuizQuestion list \<Rightarrow> QuizQuestion \<Rightarrow> event \<Rightarrow> state \<Rightarrow> error + state" where
  "dispatch questions q (ClickOption k) st =
     (if isMcOrOx q \<and> k < length (renderedOptions q) \<and> \<not> isAnswerChecked st
      then syncTempShortAnswer questions (handleAnswerSelect (renderedOptions q ! k) st)
      else Inr st)"
| "dispatch questions q (ChangeShortAnswer v) st =
     (if \<not> isMcOrOx q \<and> \<not> isAnswerChecked st
      then Inr (handleShortAnswerChange v st)
      else Inr st)"
| "dispatch questions q ClickCheckAnswer st =
     (if \<not> isAnswerChecked st \<and> \<not> isCheckAnswerDisabled q st
      then syncTempShortAnswer questions (handleCheckAnswer q st)
      else Inr st)"
| "dispatch questions q (ClickSelfAssessment isCorrect) st =
     (if \<not> isMcOrOx q \<and> isAnswerChecked st
         \<and> js_get (selfAssessedCorrectness st) (currentQuestionIndex st) = Null
      then Inr (handleSelfAssessment isCorrect st)
      else Inr st)"
| "dispatch questions q ClickPrev st =
     (if currentQuestionIndex st \<noteq> 0
      then syncTempShortAnswer questions (handlePrev st)
      else Inr st)"
| "dispatch questions q ClickNext st =
     (if isAnswerChecked st \<and> \<not> isNextButtonDisabled q st
      then (let st' = handleNext questions st
            in if currentQuestionIndex st' \<noteq> currentQuestionIndex st
               then syncTempShortAnswer questions st' else Inr st')
      else Inr st)"

text \<open>
  Once \<open>showResults\<close> is set the component returns \<open>null\<close>: no control is drawn and no
  event has an effect. Otherwise the render reads \<open>currentQuestion.questionType\<close>, which
  throws when the question is undefined.
\<close>

definition fire :: "QuizQuestion list \<Rightarrow> event \<Rightarrow> state \<Rightarrow> error + state" where
  "fire questions ev st =
     (if showResults st then Inr st
      else case currentQuestion questions st of
             None \<Rightarrow> Inl TypeError
           | Some q \<Rightarrow> dispatch questions q ev st)"

fun run :: "QuizQuestion list \<Rightarrow> event list \<Rightarrow> state \<Rightarrow> error + state" where
  "run questions [] st = Inr st"
| "run questions (ev # evs) st =
     (case fire questions ev st of
        Inl e \<Rightarrow> Inl e
      | Inr st' \<Rightarrow> run questions evs st')"

text \<open>The states of a session: the mounted component, and what events make of it.\<close>

inductive reachable :: "QuizQuestion list \<Rightarrow> state \<Rightarrow> bool"
  for questions :: "QuizQuestion list"
where
  mounted: "reachable questions (initialState questions)"
| fired: "reachable questions st \<Longrightarrow> fire questions ev st = Inr st' \<Longrightarrow> reachable questions st'"

subsection \<open>Invariants of a session\<close>

text \<open>The index is in range and the three arrays keep the length of the question list.\<close>

definition wf :: "QuizQuestion list \<Rightarrow> state \<Rightarrow> bool" where
  "wf questions st =
     (currentQuestionIndex st < length questions
      \<and> length (userAnswers st) = length questions
      \<and> length (checkedStates st) = length questions
      \<and> length (selfAssessedCorrectness st) = length questions)"

text \<open>
  Question \<open>i\<close> is settled: it is checked and, unless it is multiple-choice or ox, it
  carries a self-assessment.
\<close>

definition settled :: "QuizQuestion list \<Rightarrow> state \<Rightarrow> nat \<Rightarrow> bool" where
  "settled questions st i =
     (js_get (checkedStates st) i = Val True
      \<and> (isMcOrOx (questions ! i) \<or> (\<exists>b. js_get (selfAssessedCorrectness st) i = Val b)))"

subsection \<open>The example session of the specification\<close>

text \<open>
  Three questions: multiple-choice with answer B, ox with answer O (and no options of its
  own, so that the buttons O and X are drawn), short-answer. The learner picks B, picks X,
  types an answer and assesses it as correct.
\<close>

definition exampleQuestions :: "QuizQuestion list" where
  "exampleQuestions =
     [\<lparr> question = str ''Q1'', questionType = MultipleChoice,
        options = Some [str ''A'', str ''B''], answer = str ''B'', explanation = str ''E1'' \<rparr>,
      \<lparr> question = str ''Q2'', questionType = Ox,
        options = None, answer = str ''O'', explanation = str ''E2'' \<rparr>,
      \<lparr> question = str ''Q3'', questionType = ShortAnswer,
        options = None, answer = str ''Paris'', explanation = str ''E3'' \<rparr>]"

definition exampleEvents :: "event list" where
  "exampleEvents =
     [ClickOption 1, ClickCheckAnswer, ClickNext,
      ClickOption 1, ClickCheckAnswer, ClickNext,
      ChangeShortAnswer (str ''Paris''), ClickCheckAnswer, ClickSelfAssessment True, ClickNext]"

text \<open>
  States of that session: after the first question is checked (two events); at the third
  question with a draft of one space (six events, then the input of a space instead of the
  answer); after the short answer is checked (eight events); after the self-assessment
  (nine events); and after the last click on next. The score of the report is the number
  that JavaScript prints as 66.66666666666666.
\<close>

definition exampleFirstChecked :: state where
  "exampleFirstChecked =
     \<lparr> currentQuestionIndex = 0,
       userAnswers = [Val (str ''B''), Null, Null],
       checkedStates = [Val True, Val False, Val False],
       showResults = False,
       tempShortAnswer = [],
       selfAssessedCorrectness = [Null, Null, Null],
       submitted = [] \<rparr>"

definition exampleBlankDraft :: state where
  "exampleBlankDraft =
     \<lparr> currentQuestionIndex = 2,
       userAnswers = [Val (str ''B''), Val (str ''X''), Null],
       checkedStates = [Val True, Val True, Val False],
       showResults = False,
       tempShortAnswer = str '' '',
       selfAssessedCorrectness = [Null, Null, Null],
       submitted = [] \<rparr>"

definition exampleAwaiting :: state where
  "exampleAwaiting =
     \<lparr> currentQuestionIndex = 2,
       userAnswers = [Val (str ''B''), Val (str ''X''), Val (str ''Paris'')],
       checkedStates = [Val True, Val True, Val True],
       showResults = False,
       tempShortAnswer = str ''Paris'',
       selfAssessedCorrectness = [Null, Null, Null],
       submitted = [] \<rparr>"

definition exampleAssessed :: state where
  "exampleAssessed = exampleAwaiting\<lparr>selfAssessedCorrectness := [Null, Null, Val True]\<rparr>"

definition exampleReport :: report where
  "exampleReport =
     \<lparr> score = Fin (2345624805922133 / 2 ^ 45), correctAnswers = 2, totalQuestions = 3,
       answers = [Val (str ''B''), Val (str ''X''), Val (str ''Paris'')],
       correctness = [Val True, Val False, Val True] \<rparr>"

definition exampleFinal :: state where
  "exampleFinal = exampleAssessed\<lparr>showResults := True, submitted := [exampleReport]\<rparr>"

section \<open>Properties of the matcher\<close>

text \<open>
  C2, as amended. The code returns true exactly when the candidate is present, is not the
  empty string, and either equals the canonical answer or has the same normal form (trim,
  then one trailing full stop or comma removed). An absent candidate gives false. The four
  examples of the specification hold: "Paris." and " Paris " match "Paris", "paris" does
  not, and null does not.
\<close>

theorem isAnswerMatch_iff:
  "(isAnswerMatch candidate canonicalAnswer \<longleftrightarrow>
      (\<exists>c. candidate = Val c \<and> c \<noteq> [] \<and>
           (c = canonicalAnswer \<or> normalize c = normalize canonicalAnswer)))
   \<and> isAnswerMatch (Val (str ''Paris.'')) (str ''Paris'')
   \<and> isAnswerMatch (Val (str '' Paris '')) (str ''Paris'')
   \<and> \<not> isAnswerMatch (Val (str ''paris'')) (str ''Paris'')
   \<and> \<not> isAnswerMatch Null (str ''Paris'')"
proof -
  have general: "isAnswerMatch candidate canonicalAnswer \<longleftrightarrow>
      (\<exists>c. candidate = Val c \<and> c \<noteq> [] \<and>
           (c = canonicalAnswer \<or> normalize c = normalize canonicalAnswer))"
    by (cases candidate) (simp_all add: Let_def)
  have e1: "isAnswerMatch (Val (str ''Paris.'')) (str ''Paris'')"
    by (simp add: str_def normalize_def trim_def replaceTrailingPunct_def isWhiteSpace_def)
  have e2: "isAnswerMatch (Val (str '' Paris '')) (str ''Paris'')"
    by (simp add: str_def normalize_def trim_def replaceTrailingPunct_def isWhiteSpace_def)
  have e3: "\<not> isAnswerMatch (Val (str ''paris'')) (str ''Paris'')"
    by (simp add: str_def normalize_def trim_def replaceTrailingPunct_def isWhiteSpace_def)
  have e4: "\<not> isAnswerMatch Null (str ''Paris'')"
    by simp
  from general e1 e2 e3 e4 show ?thesis by blast
qed

text \<open>
  C2 as the specification states it fails at the empty candidate: the empty string equals
  the empty canonical answer exactly, so the specification's matcher accepts it, and the
  code rejects it.
\<close>

theorem isAnswerMatch_empty_counterexample:
  "spec_matches (Val (str '''')) (str '''') \<and> \<not> isAnswerMatch (Val (str '''')) (str '''')"
  by (simp add: spec_matches_def str_def)

text \<open>
  C9. The empty candidate never matches, whatever the canonical answer, not even the
  empty canonical answer that it equals; a candidate of one space is not cut short and
  matches the empty canonical answer through normalisation.
\<close>

theorem isAnswerMatch_empty_candidate:
  "\<not> isAnswerMatch (Val (str '''')) a
   \<and> str '''' = str ''''
   \<and> \<not> isAnswerMatch (Val (str '''')) (str '''')
   \<and> isAnswerMatch (Val (str '' '')) (str '''')"
  by (simp add: str_def normalize_def trim_def replaceTrailingPunct_def isWhiteSpace_def)

section \<open>Facts about arrays and about one event\<close>

lemma js_get_js_set: "js_get (js_set xs i v) j = (if j = i then v else js_get xs j)"
  by (auto simp: js_get_def js_set_def nth_append)

lemma length_js_set: "i < length xs \<Longrightarrow> length (js_set xs i v) = length xs"
  by (simp add: js_set_def)

lemma js_get_replicate: "js_get (replicate n v) i = (if i < n then v else Undefined)"
  by (simp add: js_get_def)

lemma syncTempShortAnswer_cases:
  assumes "syncTempShortAnswer qs st = Inr st'"
  obtains t where "currentQuestionIndex st < length qs" and "st' = st\<lparr>tempShortAnswer := t\<rparr>"
  using assms
  by (auto simp: syncTempShortAnswer_def currentQuestion_def Let_def split: if_splits option.splits)

lemma fire_cases [consumes 1, case_names idle select draft check assess prev advance finish]:
  assumes "fire qs ev st = Inr st'"
  obtains
    "st' = st"
  | k t where "ev = ClickOption k" and "\<not> showResults st"
      and "currentQuestionIndex st < length qs"
      and "isMcOrOx (qs ! currentQuestionIndex st)"
      and "k < length (renderedOptions (qs ! currentQuestionIndex st))"
      and "\<not> isAnswerChecked st"
      and "st' = st\<lparr>userAnswers := js_set (userAnswers st) (currentQuestionIndex st)
                      (Val (renderedOptions (qs ! currentQuestionIndex st) ! k)),
                    tempShortAnswer := t\<rparr>"
  | v where "ev = ChangeShortAnswer v" and "\<not> showResults st"
      and "currentQuestionIndex st < length qs"
      and "\<not> isMcOrOx (qs ! currentQuestionIndex st)"
      and "\<not> isAnswerChecked st"
      and "st' = st\<lparr>tempShortAnswer := v\<rparr>"
  | t where "ev = ClickCheckAnswer" and "\<not> showResults st"
      and "currentQuestionIndex st < length qs"
      and "\<not> isAnswerChecked st"
      and "hasAnswer (qs ! currentQuestionIndex st) st"
      and "st' = st\<lparr>userAnswers :=
                      (if isMcOrOx (qs ! currentQuestionIndex st) then userAnswers st
                       else js_set (userAnswers st) (currentQuestionIndex st)
                              (Val (tempShortAnswer st))),
                    checkedStates := js_set (checkedStates st) (currentQuestionIndex st) (Val True),
                    tempShortAnswer := t\<rparr>"
  | b where "ev = ClickSelfAssessment b" and "\<not> showResults st"
      and "currentQuestionIndex st < length qs"
      and "\<not> isMcOrOx (qs ! currentQuestionIndex st)"
      and "isAnswerChecked st"
      and "js_get (selfAssessedCorrectness st) (currentQuestionIndex st) = Null"
      and "st' = st\<lparr>selfAssessedCorrectness :=
                      js_set (selfAssessedCorrectness st) (currentQuestionIndex st) (Val b)\<rparr>"
  | t where "ev = ClickPrev" and "\<not> showResults st"
      and "currentQuestionIndex st < length qs"
      and "0 < currentQuestionIndex st"
      and "st' = st\<lparr>currentQuestionIndex := currentQuestionIndex st - 1, tempShortAnswer := t\<rparr>"
  | t where "ev = ClickNext" and "\<not> showResults st"
      and "Suc (currentQuestionIndex st) < length qs"
      and "isAnswerChecked st"
      and "\<not> isNextButtonDisabled (qs ! currentQuestionIndex st) st"
      and "st' = st\<lparr>currentQuestionIndex := currentQuestionIndex st + 1, tempShortAnswer := t\<rparr>"
  | "ev = ClickNext" and "\<not> showResults st"
      and "Suc (currentQuestionIndex st) = length qs"
      and "isAnswerChecked st"
      and "\<not> isNextButtonDisabled (qs ! currentQuestionIndex st) st"
      and "st' = handleNext qs st"
      and "showResults st'"
      and "\<exists>r. submitted st' = submitted st @ [r]"
      and "currentQuestionIndex st' = currentQuestionIndex st"
      and "userAnswers st' = userAnswers st"
      and "checkedStates st' = checkedStates st"
      and "selfAssessedCorrectness st' = selfAssessedCorrectness st"
proof (cases "showResults st")
  case True
  with assms have "st' = st" by (simp add: fire_def)
  then show ?thesis by (rule that(1))
next
  case sr: False
  show ?thesis
  proof (cases "currentQuestionIndex st < length qs")
    case False
    with sr assms show ?thesis by (simp add: fire_def currentQuestion_def)
  next
    case idx: True
    with sr assms have d: "dispatch qs (qs ! currentQuestionIndex st) ev st = Inr st'"
      by (simp add: fire_def currentQuestion_def)
    show ?thesis
    proof (cases ev)
      case (ClickOption k)
      show ?thesis
      proof (cases "isMcOrOx (qs ! currentQuestionIndex st) \<and> k < length (renderedOptions (qs ! currentQuestionIndex st)) \<and> \<not> isAnswerChecked st")
        case False
        with d ClickOption have "st' = st" by auto
        then show ?thesis by (rule that(1))
      next
        case True
        with d ClickOption obtain t where
          "st' = (handleAnswerSelect (renderedOptions (qs ! currentQuestionIndex st) ! k) st)\<lparr>tempShortAnswer := t\<rparr>"
          by (auto elim: syncTempShortAnswer_cases)
        with True have "st' = st\<lparr>userAnswers := js_set (userAnswers st) (currentQuestionIndex st)
                      (Val (renderedOptions (qs ! currentQuestionIndex st) ! k)),
                    tempShortAnswer := t\<rparr>"
          by (simp add: handleAnswerSelect_def)
        with ClickOption sr idx True show ?thesis by (intro that(2)) auto
      qed
    next
      case (ChangeShortAnswer v)
      show ?thesis
      proof (cases "\<not> isMcOrOx (qs ! currentQuestionIndex st) \<and> \<not> isAnswerChecked st")
        case False
        with d ChangeShortAnswer have "st' = st" by auto
        then show ?thesis by (rule that(1))
      next
        case True
        with d ChangeShortAnswer have "st' = st\<lparr>tempShortAnswer := v\<rparr>"
          by (auto simp: handleShortAnswerChange_def)
        with ChangeShortAnswer sr idx True show ?thesis by (intro that(3)) auto
      qed
    next
      case ClickCheckAnswer
      show ?thesis
      proof (cases "\<not> isAnswerChecked st \<and> \<not> isCheckAnswerDisabled (qs ! currentQuestionIndex st) st")
        case False
        with d ClickCheckAnswer have "st' = st" by auto
        then show ?thesis by (rule that(1))
      next
        case True
        with d ClickCheckAnswer obtain t where
          "st' = (handleCheckAnswer (qs ! currentQuestionIndex st) st)\<lparr>tempShortAnswer := t\<rparr>"
          by (auto elim: syncTempShortAnswer_cases)
        then have "st' = st\<lparr>userAnswers :=
                      (if isMcOrOx (qs ! currentQuestionIndex st) then userAnswers st
                       else js_set (userAnswers st) (currentQuestionIndex st)
                              (Val (tempShortAnswer st))),
                    checkedStates := js_set (checkedStates st) (currentQuestionIndex st) (Val True),
                    tempShortAnswer := t\<rparr>"
          by (simp add: handleCheckAnswer_def Let_def)
        with ClickCheckAnswer sr idx True show ?thesis
          by (intro that(4)) (auto simp: isCheckAnswerDisabled_def)
      qed
    next
      case (ClickSelfAssessment b)
      show ?thesis
      proof (cases "\<not> isMcOrOx (qs ! currentQuestionIndex st) \<and> isAnswerChecked st
         \<and> js_get (selfAssessedCorrectness st) (currentQuestionIndex st) = Null")
        case False
        with d ClickSelfAssessment have "st' = st" by auto
        then show ?thesis by (rule that(1))
      next
        case True
        with d ClickSelfAssessment have "st' = st\<lparr>selfAssessedCorrectness :=
                      js_set (selfAssessedCorrectness st) (currentQuestionIndex st) (Val b)\<rparr>"
          by (auto simp: handleSelfAssessment_def)
        with ClickSelfAssessment sr idx True show ?thesis by (intro that(5)) auto
      qed
    next
      case ClickPrev
      show ?thesis
      proof (cases "currentQuestionIndex st = 0")
        case True
        with d ClickPrev have "st' = st" by auto
        then show ?thesis by (rule that(1))
      next
        case False
        with d ClickPrev obtain t where
          "st' = (handlePrev st)\<lparr>tempShortAnswer := t\<rparr>"
          by (auto elim: syncTempShortAnswer_cases)
        with False have "st' = st\<lparr>currentQuestionIndex := currentQuestionIndex st - 1, tempShortAnswer := t\<rparr>"
          by (simp add: handlePrev_def)
        with ClickPrev sr idx False show ?thesis by (intro that(6)) auto
      qed
    next
      case ClickNext
      show ?thesis
      proof (cases "isAnswerChecked st \<and> \<not> isNextButtonDisabled (qs ! currentQuestionIndex st) st")
        case False
        with d ClickNext have "st' = st" by auto
        then show ?thesis by (rule that(1))
      next
        case en: True
        show ?thesis
        proof (cases "Suc (currentQuestionIndex st) < length qs")
          case True
          then have hn: "handleNext qs st = st\<lparr>currentQuestionIndex := currentQuestionIndex st + 1\<rparr>"
            by (simp add: handleNext_def)
          with d ClickNext en obtain t where
            "st' = st\<lparr>currentQuestionIndex := currentQuestionIndex st + 1, tempShortAnswer := t\<rparr>"
            by (auto simp: Let_def elim: syncTempShortAnswer_cases)
          with ClickNext sr True en show ?thesis by (intro that(7)) auto
        next
          case False
          with idx have last: "Suc (currentQuestionIndex st) = length qs" by simp
          then have nlt: "\<not> int (currentQuestionIndex st) < int (length qs) - 1" by simp
          have st': "st' = handleNext qs st"
            using d ClickNext en nlt by (simp add: Let_def handleNext_def)
          show ?thesis
            using ClickNext sr last en st' nlt
            by (intro that(8)) (simp_all add: handleNext_def Let_def)
        qed
      qed
    qed
  qed
qed

section \<open>Invariants of the reachable states\<close>

lemma run_reachable:
  "reachable qs st \<Longrightarrow> run qs evs st = Inr st' \<Longrightarrow> reachable qs st'"
proof (induction evs arbitrary: st)
  case Nil
  then show ?case by simp
next
  case (Cons ev evs)
  from Cons.prems(2) obtain st1 where f: "fire qs ev st = Inr st1" and r: "run qs evs st1 = Inr st'"
    by (auto split: sum.splits)
  from Cons.prems(1) f have "reachable qs st1" by (rule reachable.fired)
  with r show ?case by (rule Cons.IH[rotated])
qed

lemma fire_wf:
  assumes "wf qs st" and "fire qs ev st = Inr st'"
  shows "wf qs st'"
  using assms(2,1)
  by (cases rule: fire_cases) (auto simp: wf_def length_js_set)

lemma fire_total: "wf qs st \<Longrightarrow> \<exists>st'. fire qs ev st = Inr st'"
  by (cases ev)
    (auto simp: fire_def wf_def currentQuestion_def syncTempShortAnswer_def handleAnswerSelect_def
      handleCheckAnswer_def handlePrev_def handleNext_def Let_def)

lemma reachable_wf:
  assumes "qs \<noteq> []" and "reachable qs st"
  shows "wf qs st"
  using assms(2)
proof induction
  case mounted
  from assms(1) show ?case by (simp add: wf_def initialState_def)
next
  case (fired st ev st')
  then show ?case by (simp add: fire_wf)
qed

lemma reachable_auto_graded:
  assumes "reachable qs st" and "i < length qs" and "isMcOrOx (qs ! i)"
  shows "js_get (selfAssessedCorrectness st) i = Null"
  using assms
proof induction
  case mounted
  then show ?case by (simp add: initialState_def js_get_replicate)
next
  case (fired st ev st')
  from fired.hyps(2) fired.IH fired.prems show ?case
    by (cases rule: fire_cases) (auto simp: js_get_js_set)
qed

lemma reachable_assessment_defined:
  assumes "reachable qs st" and "i < length qs"
  shows "js_get (selfAssessedCorrectness st) i \<noteq> Undefined"
  using assms
proof induction
  case mounted
  then show ?case by (simp add: initialState_def js_get_replicate)
next
  case (fired st ev st')
  from fired.hyps(2) fired.IH fired.prems show ?case
    by (cases rule: fire_cases) (auto simp: js_get_js_set)
qed

lemma reachable_completed:
  assumes "reachable qs st"
  shows "length (submitted st) = (if showResults st then 1 else 0)
         \<and> (showResults st \<longrightarrow> Suc (currentQuestionIndex st) = length qs)"
  using assms
proof induction
  case mounted
  then show ?case by (simp add: initialState_def)
next
  case (fired st ev st')
  from fired.hyps(2) fired.IH show ?case
    by (cases rule: fire_cases) auto
qed

lemma settled_step:
  assumes "fire qs ev st = Inr st'" and "settled qs st i"
  shows "settled qs st' i"
  using assms
  by (cases rule: fire_cases) (auto simp: settled_def js_get_js_set)

lemma reachable_settled:
  assumes "reachable qs st" and "i < length qs"
    and "i < currentQuestionIndex st \<or> showResults st"
  shows "settled qs st i"
  using assms
proof (induction arbitrary: i)
  case mounted
  then show ?case by (simp add: initialState_def)
next
  case (fired st ev st')
  have defined: "js_get (selfAssessedCorrectness st) j \<noteq> Undefined" if "j < length qs" for j
    using fired.hyps(1) that by (rule reachable_assessment_defined)
  from fired.hyps(2) show ?case
  proof (cases rule: fire_cases)
    case idle
    with fired show ?thesis by simp
  next
    case (advance t)
    show ?thesis
    proof (cases "i = currentQuestionIndex st")
      case True
      have "js_get (selfAssessedCorrectness st) i \<noteq> Undefined"
        using defined[of i] fired.prems(1) by simp
      with advance True have "settled qs st i"
        by (cases "js_get (selfAssessedCorrectness st) i")
           (auto simp: settled_def isNextButtonDisabled_def isAnswerChecked_def)
      with fired.hyps(2) show ?thesis by (rule settled_step)
    next
      case False
      with advance fired.prems have "i < currentQuestionIndex st \<or> showResults st" by auto
      with fired.IH fired.prems(1) have "settled qs st i" by blast
      with fired.hyps(2) show ?thesis by (rule settled_step)
    qed
  next
    case finish
    show ?thesis
    proof (cases "i = currentQuestionIndex st")
      case True
      have "js_get (selfAssessedCorrectness st) i \<noteq> Undefined"
        using defined[of i] fired.prems(1) by simp
      with finish True have "settled qs st i"
        by (cases "js_get (selfAssessedCorrectness st) i")
           (auto simp: settled_def isNextButtonDisabled_def isAnswerChecked_def)
      with fired.hyps(2) show ?thesis by (rule settled_step)
    next
      case False
      with finish fired.prems have "i < currentQuestionIndex st" by auto
      with fired.IH fired.prems(1) have "settled qs st i" by blast
      with fired.hyps(2) show ?thesis by (rule settled_step)
    qed
  qed (use fired in \<open>auto simp: settled_def js_get_js_set\<close>)
qed

section \<open>Facts about numbers\<close>

lemma pow2_powi: "pow2 e = 2 powi e"
  by (simp add: pow2_def power_int_def inverse_eq_divide power_one_over)

lemma pow2_pos: "0 < pow2 e"
  by (simp add: pow2_powi zero_less_power_int)

lemma pow2_mono: "a \<le> b \<Longrightarrow> pow2 a \<le> pow2 b"
  by (simp add: pow2_powi power_int_increasing)

lemma pow2_add: "pow2 (a + b) = pow2 a * pow2 b"
  by (simp add: pow2_powi power_int_add)

lemma pow2_less_imp: "pow2 a < pow2 b \<Longrightarrow> a < b"
  using pow2_mono[of b a] by (auto simp: not_le[symmetric])

lemma exponentFrom_range: "- 1022 \<le> exponentFrom e x"
  by (induction e x rule: exponentFrom.induct) (subst exponentFrom.simps, simp)

lemma exponentFrom_upper:
  "x < pow2 (k + 1) \<Longrightarrow> - 1022 \<le> k \<Longrightarrow> exponentFrom e x \<le> k"
proof (induction e x rule: exponentFrom.induct)
  case (1 e x)
  show ?case
  proof (cases "e \<le> - 1022")
    case True
    with 1 show ?thesis by (subst exponentFrom.simps) simp
  next
    case False
    show ?thesis
    proof (cases "pow2 e \<le> x")
      case True
      with "1.prems"(1) have "pow2 e < pow2 (k + 1)" by simp
      then have "e < k + 1" by (rule pow2_less_imp)
      with True False show ?thesis by (subst exponentFrom.simps) simp
    next
      case nle: False
      with False 1 show ?thesis by (subst exponentFrom.simps) simp
    qed
  qed
qed

lemma exponentFrom_unique:
  "pow2 e \<le> x \<Longrightarrow> x < pow2 (e + 1) \<Longrightarrow> - 1022 \<le> e \<Longrightarrow> e \<le> E \<Longrightarrow> exponentFrom E x = e"
proof (induction E x rule: exponentFrom.induct)
  case (1 E x)
  show ?case
  proof (cases "E \<le> - 1022")
    case True
    with 1 show ?thesis by (subst exponentFrom.simps) simp
  next
    case False
    show ?thesis
    proof (cases "pow2 E \<le> x")
      case True
      with "1.prems"(2) have "pow2 E < pow2 (e + 1)" by simp
      then have "E < e + 1" by (rule pow2_less_imp)
      with True False "1.prems" show ?thesis by (subst exponentFrom.simps) simp
    next
      case nle: False
      with "1.prems"(1) have "pow2 e < pow2 E" by simp
      then have "e < E" by (rule pow2_less_imp)
      with nle False 1 show ?thesis by (subst exponentFrom.simps) simp
    qed
  qed
qed

lemma exponent_unique:
  "pow2 e \<le> x \<Longrightarrow> x < pow2 (e + 1) \<Longrightarrow> - 1022 \<le> e \<Longrightarrow> e \<le> 1023 \<Longrightarrow> exponent x = e"
  by (simp add: exponent_def exponentFrom_unique)

lemma roundHalfEven_error: "\<bar>of_int (roundHalfEven m) - m\<bar> \<le> 1 / 2"
proof -
  have "of_int \<lfloor>m\<rfloor> \<le> m" "m < of_int \<lfloor>m\<rfloor> + 1" by linarith+
  then show ?thesis by (auto simp: roundHalfEven_def Let_def)
qed

lemma roundHalfEven_le: "m \<le> of_int k \<Longrightarrow> roundHalfEven m \<le> k"
proof -
  assume h: "m \<le> of_int k"
  then have f: "\<lfloor>m\<rfloor> \<le> k" by (simp add: floor_le_iff)
  show ?thesis
  proof (cases "\<lfloor>m\<rfloor> = k")
    case True
    with h have "m - of_int \<lfloor>m\<rfloor> \<le> 0" by simp
    with True show ?thesis by (simp add: roundHalfEven_def Let_def)
  next
    case False
    with f have "\<lfloor>m\<rfloor> + 1 \<le> k" by simp
    with f show ?thesis by (simp add: roundHalfEven_def Let_def)
  qed
qed

lemma roundHalfEven_nonneg: "0 \<le> m \<Longrightarrow> 0 \<le> roundHalfEven m"
proof -
  assume "0 \<le> m"
  then have "0 \<le> \<lfloor>m\<rfloor>" by simp
  then show ?thesis by (simp add: roundHalfEven_def Let_def)
qed

lemma binary64_bounded:
  assumes "0 \<le> x" and "x \<le> of_nat N" and "of_nat N < pow2 (k + 1)"
    and "- 1022 \<le> k" and "k \<le> 52"
  shows "\<exists>y. binary64 x = Fin y \<and> 0 \<le> y \<and> y \<le> of_nat N \<and> \<bar>y - x\<bar> \<le> pow2 (k - 53)"
proof -
  define e where "e = exponent x"
  define ulp where "ulp = pow2 (e - 52)"
  define r where "r = roundHalfEven (x / ulp)"
  define y where "y = of_int r * ulp"
  from assms(2,3) have "x < pow2 (k + 1)" by simp
  with assms(4) have ek: "e \<le> k" by (simp add: e_def exponent_def exponentFrom_upper)
  have ulp_pos: "0 < ulp" by (simp add: ulp_def pow2_pos)
  have "\<bar>of_int r - x / ulp\<bar> \<le> 1 / 2" unfolding r_def by (rule roundHalfEven_error)
  then have "\<bar>of_int r - x / ulp\<bar> * ulp \<le> 1 / 2 * ulp"
    using ulp_pos by (simp only: mult_le_cancel_right_pos)
  moreover have "\<bar>of_int r - x / ulp\<bar> * ulp = \<bar>y - x\<bar>"
  proof -
    have "(of_int r - x / ulp) * ulp = y - x"
      using ulp_pos by (simp add: y_def left_diff_distrib)
    then have "\<bar>y - x\<bar> = \<bar>of_int r - x / ulp\<bar> * \<bar>ulp\<bar>"
      by (simp only: abs_mult[symmetric])
    with ulp_pos show ?thesis by simp
  qed
  moreover have "1 / 2 * ulp = pow2 (e - 53)"
  proof -
    have "pow2 (e - 52) = pow2 ((e - 53) + 1)" by simp
    also have "\<dots> = pow2 (e - 53) * 2" by (simp only: pow2_add) (simp add: pow2_def)
    finally show ?thesis by (simp add: ulp_def)
  qed
  moreover from ek have "pow2 (e - 53) \<le> pow2 (k - 53)" by (simp add: pow2_mono)
  ultimately have err: "\<bar>y - x\<bar> \<le> pow2 (k - 53)" by simp
  from assms(1) ulp_pos have "0 \<le> x / ulp" by simp
  then have "0 \<le> r" unfolding r_def by (rule roundHalfEven_nonneg)
  with ulp_pos have y0: "0 \<le> y" by (simp add: y_def)
  from ek assms(5) have e52: "0 \<le> 52 - e" by simp
  have inv: "1 / ulp = of_int (2 ^ nat (52 - e))"
  proof -
    have "pow2 (e - 52) * pow2 (52 - e) = pow2 0" by (simp only: pow2_add[symmetric]) simp
    then have "ulp * pow2 (52 - e) = 1" by (simp add: ulp_def pow2_def)
    with ulp_pos have "1 / ulp = pow2 (52 - e)" by (simp add: field_simps)
    with e52 show ?thesis by (simp add: pow2_def)
  qed
  have "of_nat N / ulp = of_nat N * (1 / ulp)" by simp
  also have "\<dots> = of_int (int N * 2 ^ nat (52 - e))" by (simp only: inv) simp
  finally have Nulp: "of_nat N / ulp = of_int (int N * 2 ^ nat (52 - e))" .
  from assms(2) ulp_pos have "x / ulp \<le> of_nat N / ulp" by (simp add: divide_right_mono)
  with Nulp have "x / ulp \<le> of_int (int N * 2 ^ nat (52 - e))" by simp
  then have "r \<le> int N * 2 ^ nat (52 - e)" unfolding r_def by (rule roundHalfEven_le)
  then have "(of_int r :: rat) \<le> of_int (int N * 2 ^ nat (52 - e))" by (simp only: of_int_le_iff)
  with Nulp have "of_int r \<le> of_nat N / ulp" by simp
  with ulp_pos have yN: "y \<le> of_nat N" by (simp add: y_def field_simps)
  from assms(4,5) have "pow2 (k + 1) \<le> pow2 1024" by (simp add: pow2_mono)
  with yN assms(3) have "\<not> pow2 1024 \<le> y" by simp
  then have "binary64 x = Fin y"
    by (simp add: binary64_def Let_def y_def r_def ulp_def e_def)
  with y0 yN err show ?thesis by blast
qed

lemma binary64_normal:
  assumes "pow2 e \<le> x" and "x < pow2 (e + 1)" and "- 1022 \<le> e" and "e \<le> 1023"
  shows "binary64 x =
     (let ulp = pow2 (e - 52); y = of_int (roundHalfEven (x / ulp)) * ulp
      in if pow2 1024 \<le> y then PosInfinity else Fin y)"
  using exponent_unique[OF assms] by (simp add: binary64_def)

text \<open>
  The score of \<open>c\<close> correct answers out of \<open>n > 0\<close>: both roundings stay in range, so the
  result is finite, lies between 0 and 100, and is within \<open>2 ^ -45\<close> of the exact
  percentage.
\<close>

lemma score_finite:
  assumes "c \<le> n" and "0 < n"
  shows "\<exists>x. double_times (double_divide (Fin (of_nat c)) (Fin (of_nat n))) (Fin 100) = Fin x
           \<and> 0 \<le> x \<and> x \<le> 100 \<and> \<bar>x - of_nat c / of_nat n * 100\<bar> \<le> 1 / 2 ^ 45"
proof -
  let ?q = "of_nat c / of_nat n :: rat"
  from assms have q0: "0 \<le> ?q" and q1: "?q \<le> of_nat 1" by simp_all
  have "(of_nat 1 :: rat) < pow2 (0 + 1)" by (simp add: pow2_def)
  with q0 q1 obtain y where y: "binary64 ?q = Fin y" "0 \<le> y" "y \<le> of_nat 1"
    "\<bar>y - ?q\<bar> \<le> pow2 (0 - 53)"
    using binary64_bounded[of ?q 1 0] by auto
  from y(2,3) have z0: "0 \<le> y * 100" and z1: "y * 100 \<le> of_nat 100" by simp_all
  have "(of_nat 100 :: rat) < pow2 (6 + 1)" by (simp add: pow2_def)
  with z0 z1 obtain x where x: "binary64 (y * 100) = Fin x" "0 \<le> x" "x \<le> of_nat 100"
    "\<bar>x - y * 100\<bar> \<le> pow2 (6 - 53)"
    using binary64_bounded[of "y * 100" 100 6] by auto
  from assms(2) y(1) x(1)
  have eq: "double_times (double_divide (Fin (of_nat c)) (Fin (of_nat n))) (Fin 100) = Fin x"
    by simp
  from y(4) have e1: "\<bar>y - ?q\<bar> \<le> 1 / 2 ^ 53" by (simp add: pow2_def)
  from x(4) have e2: "\<bar>x - y * 100\<bar> \<le> 1 / 2 ^ 47" by (simp add: pow2_def)
  have "x - ?q * 100 = (x - y * 100) + (y - ?q) * 100" by (simp add: algebra_simps)
  then have "\<bar>x - ?q * 100\<bar> \<le> \<bar>x - y * 100\<bar> + \<bar>(y - ?q) * 100\<bar>"
    by (simp only: abs_triangle_ineq)
  also have "\<bar>(y - ?q) * 100\<bar> = \<bar>y - ?q\<bar> * 100"
    by (simp only: abs_mult abs_numeral)
  also have "\<bar>x - y * 100\<bar> + \<bar>y - ?q\<bar> * 100 \<le> 1 / 2 ^ 47 + 1 / 2 ^ 53 * 100"
  proof (rule add_mono)
    show "\<bar>x - y * 100\<bar> \<le> 1 / 2 ^ 47" by (rule e2)
    show "\<bar>y - ?q\<bar> * 100 \<le> 1 / 2 ^ 53 * 100"
      using e1 by (rule mult_right_mono) simp
  qed
  also have "\<dots> \<le> 1 / 2 ^ 45" by simp
  finally have "\<bar>x - ?q * 100\<bar> \<le> 1 / 2 ^ 45" .
  with eq x(2,3) show ?thesis by auto
qed

text \<open>
  Two scores, evaluated: 2 of 3 is 66.66666666666666 and not 200/3, and 11 of 20 is
  55.00000000000001 and not 55.
\<close>

lemma score_2_of_3:
  "double_times (double_divide (Fin 2) (Fin 3)) (Fin 100) = Fin (2345624805922133 / 2 ^ 45)"
proof -
  have e1: "exponent (2 / 3) = - 1"
    by (rule exponent_unique) (simp_all add: pow2_def)
  have r1: "roundHalfEven (2 / 3 / pow2 (- 1 - 52)) = 6004799503160661"
    by code_simp
  have q: "binary64 (2 / 3) = Fin (6004799503160661 / 2 ^ 53)"
    unfolding binary64_def Let_def e1 r1 by (simp add: pow2_def)
  have e2: "exponent (6004799503160661 / 2 ^ 53 * 100) = 6"
    by (rule exponent_unique) (simp_all add: pow2_def)
  have r2: "roundHalfEven (6004799503160661 / 2 ^ 53 * 100 / pow2 (6 - 52)) = 4691249611844266"
    by code_simp
  have p: "binary64 (6004799503160661 / 2 ^ 53 * 100) = Fin (2345624805922133 / 2 ^ 45)"
    unfolding binary64_def Let_def e2 r2 by (simp add: pow2_def)
  from q p show ?thesis by simp
qed

lemma score_11_of_20:
  "double_times (double_divide (Fin 11) (Fin 20)) (Fin 100) = Fin (55 + 1 / 2 ^ 47)"
proof -
  have e1: "exponent (11 / 20) = - 1"
    by (rule exponent_unique) (simp_all add: pow2_def)
  have r1: "roundHalfEven (11 / 20 / pow2 (- 1 - 52)) = 4953959590107546"
    by code_simp
  have q: "binary64 (11 / 20) = Fin (4953959590107546 / 2 ^ 53)"
    unfolding binary64_def Let_def e1 r1 by (simp add: pow2_def)
  have e2: "exponent (4953959590107546 / 2 ^ 53 * 100) = 5"
    by (rule exponent_unique) (simp_all add: pow2_def)
  have r2: "roundHalfEven (4953959590107546 / 2 ^ 53 * 100 / pow2 (5 - 52)) = 7740561859543041"
    by code_simp
  have p: "binary64 (4953959590107546 / 2 ^ 53 * 100) = Fin (55 + 1 / 2 ^ 47)"
    unfolding binary64_def Let_def e2 r2 by (simp add: pow2_def)
  from q p show ?thesis by simp
qed

text \<open>With no question at all the score is \<open>0 / 0 * 100\<close>, not a number.\<close>

lemma score_0_of_0:
  "double_times (double_divide (Fin (of_nat 0)) (Fin (of_nat 0))) (Fin 100) = NaN"
  by simp

section \<open>Facts about the scoring report\<close>

lemma calculatedCorrectness_length:
  "length (calculatedCorrectness qs st) = length qs"
  by (simp add: calculatedCorrectness_def)

lemma calculatedCorrectness_nth:
  "i < length qs \<Longrightarrow>
   calculatedCorrectness qs st ! i =
     (if isMcOrOx (qs ! i) then isAnswerMatch (js_get (userAnswers st) i) (answer (qs ! i))
      else js_get (selfAssessedCorrectness st) i = Val True)"
  by (simp add: calculatedCorrectness_def Let_def)

lemma filter_map_Val_True:
  "filter (\<lambda>c. c = Val True) (map Val bs) = map Val (filter (\<lambda>c. c = True) bs)"
  by (induction bs) auto

lemma handleNext_last:
  assumes "Suc (currentQuestionIndex st) = length qs"
  shows "handleNext qs st =
     st\<lparr>showResults := True,
        submitted := submitted st @
          [\<lparr> score = double_times
                       (double_divide
                          (Fin (of_nat (length (filter (\<lambda>c. c = True) (calculatedCorrectness qs st)))))
                          (Fin (of_nat (length qs))))
                       (Fin 100),
             correctAnswers = length (filter (\<lambda>c. c = True) (calculatedCorrectness qs st)),
             totalQuestions = length qs,
             answers = userAnswers st,
             correctness = map Val (calculatedCorrectness qs st) \<rparr>]\<rparr>"
proof -
  from assms have "\<not> int (currentQuestionIndex st) < int (length qs) - 1" by simp
  then show ?thesis by (simp add: handleNext_def Let_def)
qed

lemma handleNext_last_ex:
  assumes "Suc (currentQuestionIndex st) = length qs"
  shows "\<exists>r. handleNext qs st = st\<lparr>showResults := True, submitted := submitted st @ [r]\<rparr>"
  by (rule exI) (rule handleNext_last[OF assms])

lemma fire_next_at_last:
  assumes "Suc (currentQuestionIndex st) = length qs" and "\<not> showResults st"
    and "isAnswerChecked st" and "\<not> isNextButtonDisabled (qs ! currentQuestionIndex st) st"
  shows "fire qs ClickNext st = Inr (handleNext qs st)"
proof -
  from assms(1) have "currentQuestionIndex (handleNext qs st) = currentQuestionIndex st"
    by (simp add: handleNext_last)
  with assms show ?thesis
    by (simp add: fire_def currentQuestion_def Let_def)
qed

section \<open>The example session, evaluated\<close>

lemma example_awaiting_run:
  "run exampleQuestions (take 8 exampleEvents) (initialState exampleQuestions) = Inr exampleAwaiting"
  by code_simp

lemma example_assessed_fire:
  "fire exampleQuestions (ClickSelfAssessment True) exampleAwaiting = Inr exampleAssessed"
  by code_simp

lemma example_final_fire:
  "fire exampleQuestions ClickNext exampleAssessed = Inr exampleFinal"
proof -
  have last: "Suc (currentQuestionIndex exampleAssessed) = length exampleQuestions"
    and open_session: "\<not> showResults exampleAssessed"
    and checked: "isAnswerChecked exampleAssessed"
    and enabled: "\<not> isNextButtonDisabled
        (exampleQuestions ! currentQuestionIndex exampleAssessed) exampleAssessed"
    by (simp_all add: exampleAssessed_def exampleAwaiting_def exampleQuestions_def
        isAnswerChecked_def isNextButtonDisabled_def js_get_def)
  have cc: "calculatedCorrectness exampleQuestions exampleAssessed = [True, False, True]"
    by code_simp
  have n: "length exampleQuestions = 3"
    by (simp add: exampleQuestions_def)
  have cnt: "length (filter (\<lambda>c. c = True) [True, False, True]) = 2"
    by simp
  have "handleNext exampleQuestions exampleAssessed =
      exampleAssessed\<lparr>showResults := True,
        submitted := submitted exampleAssessed @
          [\<lparr> score = Fin (2345624805922133 / 2 ^ 45), correctAnswers = 2, totalQuestions = 3,
             answers = userAnswers exampleAssessed,
             correctness = map Val [True, False, True] \<rparr>]\<rparr>"
    using handleNext_last[OF last] by (simp only: cc n cnt of_nat_numeral score_2_of_3)
  also have "\<dots> = exampleFinal"
    by (simp add: exampleFinal_def exampleReport_def exampleAssessed_def exampleAwaiting_def)
  finally have "handleNext exampleQuestions exampleAssessed = exampleFinal" .
  with fire_next_at_last[OF last open_session checked enabled] show ?thesis by simp
qed

lemma run_append:
  "run qs (evs @ evs') st =
     (case run qs evs st of Inl e \<Rightarrow> Inl e | Inr st' \<Rightarrow> run qs evs' st')"
  by (induction evs arbitrary: st) (auto split: sum.splits)

lemma example_final_run:
  "run exampleQuestions exampleEvents (initialState exampleQuestions) = Inr exampleFinal"
proof -
  have "exampleEvents = take 8 exampleEvents @ [ClickSelfAssessment True, ClickNext]"
    by (simp add: exampleEvents_def)
  then have "run exampleQuestions exampleEvents (initialState exampleQuestions) =
      run exampleQuestions (take 8 exampleEvents @ [ClickSelfAssessment True, ClickNext])
        (initialState exampleQuestions)"
    by simp
  also have "\<dots> = Inr exampleFinal"
    by (simp only: run_append example_awaiting_run sum.case run.simps
        example_assessed_fire example_final_fire)
  finally show ?thesis .
qed

lemma example_nonempty: "exampleQuestions \<noteq> []"
  by (simp add: exampleQuestions_def)

lemma example_awaiting_reachable: "reachable exampleQuestions exampleAwaiting"
  using reachable.mounted example_awaiting_run by (rule run_reachable)

lemma example_assessed_reachable: "reachable exampleQuestions exampleAssessed"
  using example_awaiting_reachable example_assessed_fire by (rule reachable.fired)

lemma example_final_reachable: "reachable exampleQuestions exampleFinal"
  using example_assessed_reachable example_final_fire by (rule reachable.fired)

section \<open>The scoring report\<close>

text \<open>
  C1, as amended. At the last index of a non-empty question list, \<open>handleNext\<close> sets
  \<open>showResults\<close> and submits one report. Its correctness entry for question \<open>i\<close> is the
  matcher's verdict on \<open>userAnswers[i]\<close> for a multiple-choice or ox question and
  \<open>selfAssessedCorrectness[i] === true\<close> otherwise; the count is the number of true
  entries, the total is the number of questions, the answers are the session's. The score
  is the binary64 number \<open>(count / total) * 100\<close>, each of the two operations rounded to
  nearest; it is finite and within \<open>2 ^ -45\<close> of the exact percentage. The example session
  (B picked for answer B, X picked for answer O, the short answer assessed as correct)
  ends with the count 2, the entries true, false, true, and the score 66.66666666666666,
  which is \<open>2345624805922133 / 2 ^ 45\<close>.
\<close>

theorem handleNext_scoring_report:
  "(questions \<noteq> [] \<and> Suc (currentQuestionIndex st) = length questions \<longrightarrow>
      (\<exists>r. handleNext questions st = st\<lparr>showResults := True, submitted := submitted st @ [r]\<rparr>
         \<and> length (correctness r) = length questions
         \<and> (\<forall>i<length questions.
               correctness r ! i =
                 Val (if isMcOrOx (questions ! i)
                      then isAnswerMatch (js_get (userAnswers st) i) (answer (questions ! i))
                      else js_get (selfAssessedCorrectness st) i = Val True))
         \<and> correctAnswers r = length (filter (\<lambda>c. c = Val True) (correctness r))
         \<and> totalQuestions r = length questions
         \<and> answers r = userAnswers st
         \<and> score r =
             double_times
               (double_divide (Fin (of_nat (correctAnswers r))) (Fin (of_nat (length questions))))
               (Fin 100)
         \<and> (\<exists>x. score r = Fin x
                \<and> \<bar>x - of_nat (correctAnswers r) / of_nat (length questions) * 100\<bar>
                    \<le> 1 / 2 ^ 45)))
   \<and> run exampleQuestions exampleEvents (initialState exampleQuestions) = Inr exampleFinal
   \<and> js_get (userAnswers exampleFinal) 0 = Val (str ''B'')
   \<and> js_get (userAnswers exampleFinal) 1 = Val (str ''X'')
   \<and> js_get (selfAssessedCorrectness exampleFinal) 2 = Val True
   \<and> (\<exists>r. submitted exampleFinal = [r] \<and> correctAnswers r = 2
          \<and> score r = Fin (2345624805922133 / 2 ^ 45)
          \<and> correctness r = [Val True, Val False, Val True])"
proof -
  have general: "\<exists>r. handleNext questions st = st\<lparr>showResults := True, submitted := submitted st @ [r]\<rparr>
         \<and> length (correctness r) = length questions
         \<and> (\<forall>i<length questions.
               correctness r ! i =
                 Val (if isMcOrOx (questions ! i)
                      then isAnswerMatch (js_get (userAnswers st) i) (answer (questions ! i))
                      else js_get (selfAssessedCorrectness st) i = Val True))
         \<and> correctAnswers r = length (filter (\<lambda>c. c = Val True) (correctness r))
         \<and> totalQuestions r = length questions
         \<and> answers r = userAnswers st
         \<and> score r =
             double_times
               (double_divide (Fin (of_nat (correctAnswers r))) (Fin (of_nat (length questions))))
               (Fin 100)
         \<and> (\<exists>x. score r = Fin x
                \<and> \<bar>x - of_nat (correctAnswers r) / of_nat (length questions) * 100\<bar>
                    \<le> 1 / 2 ^ 45)"
    if h: "Suc (currentQuestionIndex st) = length questions" and ne: "questions \<noteq> []"
  proof -
    let ?cc = "calculatedCorrectness questions st"
    let ?n = "length (filter (\<lambda>c. c = True) ?cc)"
    let ?s = "double_times (double_divide (Fin (of_nat ?n)) (Fin (of_nat (length questions))))
                (Fin 100)"
    let ?r = "\<lparr> score = ?s,
               correctAnswers = ?n,
               totalQuestions = length questions,
               answers = userAnswers st,
               correctness = map Val ?cc \<rparr>"
    have le: "?n \<le> length questions"
      using length_filter_le[of "\<lambda>c. c = True" ?cc] by (simp add: calculatedCorrectness_length)
    from ne have pos: "0 < length questions" by simp
    from score_finite[OF le pos] obtain x where
      x: "?s = Fin x" "\<bar>x - of_nat ?n / of_nat (length questions) * 100\<bar> \<le> 1 / 2 ^ 45"
      by blast
    from h have "handleNext questions st = st\<lparr>showResults := True, submitted := submitted st @ [?r]\<rparr>"
      by (simp add: handleNext_last)
    moreover have "length (correctness ?r) = length questions"
      by (simp add: calculatedCorrectness_length)
    moreover have "\<forall>i<length questions.
                 correctness ?r ! i =
                   Val (if isMcOrOx (questions ! i)
                        then isAnswerMatch (js_get (userAnswers st) i) (answer (questions ! i))
                        else js_get (selfAssessedCorrectness st) i = Val True)"
      by (simp add: calculatedCorrectness_length calculatedCorrectness_nth)
    moreover have "correctAnswers ?r = length (filter (\<lambda>c. c = Val True) (correctness ?r))"
      by (simp add: filter_map_Val_True)
    moreover have "totalQuestions ?r = length questions" "answers ?r = userAnswers st"
      "score ?r =
         double_times
           (double_divide (Fin (of_nat (correctAnswers ?r))) (Fin (of_nat (length questions))))
           (Fin 100)"
      by simp_all
    moreover from x have "\<exists>x. score ?r = Fin x
                \<and> \<bar>x - of_nat (correctAnswers ?r) / of_nat (length questions) * 100\<bar>
                    \<le> 1 / 2 ^ 45"
      by simp
    ultimately show ?thesis by blast
  qed
  have e1: "js_get (userAnswers exampleFinal) 0 = Val (str ''B'')"
    and e2: "js_get (userAnswers exampleFinal) 1 = Val (str ''X'')"
    and e3: "js_get (selfAssessedCorrectness exampleFinal) 2 = Val True"
    by (simp_all add: exampleFinal_def exampleAssessed_def exampleAwaiting_def js_get_def)
  have e4: "\<exists>r. submitted exampleFinal = [r] \<and> correctAnswers r = 2
          \<and> score r = Fin (2345624805922133 / 2 ^ 45)
          \<and> correctness r = [Val True, Val False, Val True]"
    by (simp add: exampleFinal_def exampleReport_def)
  from general example_final_run e1 e2 e3 e4 show ?thesis by blast
qed

text \<open>The general part of C1 at the example session, before its last click on next.\<close>

theorem handleNext_scoring_report_witness:
  "exampleQuestions \<noteq> []
   \<and> Suc (currentQuestionIndex exampleAssessed) = length exampleQuestions
   \<and> (\<exists>r. handleNext exampleQuestions exampleAssessed =
            exampleAssessed\<lparr>showResults := True, submitted := submitted exampleAssessed @ [r]\<rparr>
          \<and> length (correctness r) = length exampleQuestions
          \<and> totalQuestions r = length exampleQuestions
          \<and> (\<exists>x. score r = Fin x
                \<and> \<bar>x - of_nat (correctAnswers r) / of_nat (length exampleQuestions) * 100\<bar>
                    \<le> 1 / 2 ^ 45))"
proof -
  have h: "exampleQuestions \<noteq> []
      \<and> Suc (currentQuestionIndex exampleAssessed) = length exampleQuestions"
    by (simp add: exampleQuestions_def exampleAssessed_def exampleAwaiting_def)
  with handleNext_scoring_report[of exampleQuestions exampleAssessed] show ?thesis
    by blast
qed

text \<open>
  C1 as the specification states it fails at its own example: the score that the example
  session submits is neither 200/3 nor the exact value of count / total * 100, since
  2/3 is not a binary64 number and its rounded value times 100 rounds below 200/3.
\<close>

theorem handleNext_score_counterexample:
  "run exampleQuestions exampleEvents (initialState exampleQuestions) = Inr exampleFinal
   \<and> submitted exampleFinal = [exampleReport]
   \<and> correctAnswers exampleReport = 2
   \<and> totalQuestions exampleReport = 3
   \<and> score exampleReport \<noteq> Fin (200 / 3)
   \<and> score exampleReport \<noteq>
       Fin (of_nat (correctAnswers exampleReport) / of_nat (totalQuestions exampleReport) * 100)"
  using example_final_run by (simp add: exampleFinal_def exampleReport_def)

text \<open>
  C10. In the report that \<open>handleNext\<close> submits at the last index of a non-empty
  question list, every correctness entry is true or false, one per question. A question
  that is neither multiple-choice nor ox and whose self-assessment is absent (\<open>null\<close>,
  or \<open>undefined\<close>) is entered as false. The count is at most the total and the score is a
  finite number between 0 and 100.
\<close>

theorem report_correctness_is_boolean:
  assumes "questions \<noteq> []" and "Suc (currentQuestionIndex st) = length questions"
  shows "\<exists>r. submitted (handleNext questions st) = submitted st @ [r]
           \<and> length (correctness r) = length questions
           \<and> (\<forall>i<length questions.
                 (correctness r ! i = Val True \<or> correctness r ! i = Val False)
                 \<and> (\<not> isMcOrOx (questions ! i)
                      \<and> (js_get (selfAssessedCorrectness st) i = Null
                           \<or> js_get (selfAssessedCorrectness st) i = Undefined)
                    \<longrightarrow> correctness r ! i = Val False))
           \<and> correctAnswers r \<le> totalQuestions r
           \<and> (\<exists>x. score r = Fin x \<and> 0 \<le> x \<and> x \<le> 100)"
proof -
  let ?cc = "calculatedCorrectness questions st"
  let ?n = "length (filter (\<lambda>c. c = True) ?cc)"
  let ?s = "double_times (double_divide (Fin (of_nat ?n)) (Fin (of_nat (length questions))))
              (Fin 100)"
  let ?r = "\<lparr> score = ?s,
             correctAnswers = ?n,
             totalQuestions = length questions,
             answers = userAnswers st,
             correctness = map Val ?cc \<rparr>"
  have le: "?n \<le> length questions"
    using length_filter_le[of "\<lambda>c. c = True" ?cc] by (simp add: calculatedCorrectness_length)
  from assms(1) have pos: "0 < length questions" by simp
  from score_finite[OF le pos] obtain x where "?s = Fin x" "0 \<le> x" "x \<le> 100"
    by blast
  then have sc: "\<exists>x. score ?r = Fin x \<and> 0 \<le> x \<and> x \<le> 100" by simp
  from assms(2) have "submitted (handleNext questions st) = submitted st @ [?r]"
    by (simp add: handleNext_last)
  moreover have "length (correctness ?r) = length questions"
    by (simp add: calculatedCorrectness_length)
  moreover have "\<forall>i<length questions.
                 (correctness ?r ! i = Val True \<or> correctness ?r ! i = Val False)
                 \<and> (\<not> isMcOrOx (questions ! i)
                      \<and> (js_get (selfAssessedCorrectness st) i = Null
                           \<or> js_get (selfAssessedCorrectness st) i = Undefined)
                    \<longrightarrow> correctness ?r ! i = Val False)"
    by (auto simp: calculatedCorrectness_length calculatedCorrectness_nth)
  moreover from le have "correctAnswers ?r \<le> totalQuestions ?r" by simp
  ultimately show ?thesis using sc by blast
qed

text \<open>
  C10 at the example session with the short answer checked and not yet assessed: the
  handler, called there, enters the third question as false.
\<close>

theorem report_correctness_is_boolean_witness:
  "exampleQuestions \<noteq> []
   \<and> Suc (currentQuestionIndex exampleAwaiting) = length exampleQuestions
   \<and> \<not> isMcOrOx (exampleQuestions ! 2)
   \<and> js_get (selfAssessedCorrectness exampleAwaiting) 2 = Null
   \<and> (\<exists>r. submitted (handleNext exampleQuestions exampleAwaiting) = submitted exampleAwaiting @ [r]
          \<and> correctness r ! 2 = Val False
          \<and> correctAnswers r \<le> totalQuestions r
          \<and> (\<exists>x. score r = Fin x \<and> 0 \<le> x \<and> x \<le> 100))"
proof -
  have h1: "exampleQuestions \<noteq> []"
    and h2: "Suc (currentQuestionIndex exampleAwaiting) = length exampleQuestions"
    and h3: "\<not> isMcOrOx (exampleQuestions ! 2)"
    and h4: "js_get (selfAssessedCorrectness exampleAwaiting) 2 = Null"
    and h5: "2 < length exampleQuestions"
    by (simp_all add: exampleQuestions_def exampleAwaiting_def isMcOrOx_def js_get_def)
  from report_correctness_is_boolean[OF h1 h2] h3 h4 h5 have
    "\<exists>r. submitted (handleNext exampleQuestions exampleAwaiting) = submitted exampleAwaiting @ [r]
          \<and> correctness r ! 2 = Val False
          \<and> correctAnswers r \<le> totalQuestions r
          \<and> (\<exists>x. score r = Fin x \<and> 0 \<le> x \<and> x \<le> 100)"
    by blast
  with h1 h2 h3 h4 show ?thesis by blast
qed

section \<open>More states of the example session\<close>

lemma example_first_checked_run:
  "run exampleQuestions (take 2 exampleEvents) (initialState exampleQuestions) = Inr exampleFirstChecked"
  by code_simp

lemma example_blank_draft_run:
  "run exampleQuestions (take 6 exampleEvents @ [ChangeShortAnswer (str '' '')])
     (initialState exampleQuestions) = Inr exampleBlankDraft"
  by code_simp

lemma example_first_checked_reachable: "reachable exampleQuestions exampleFirstChecked"
  using reachable.mounted example_first_checked_run by (rule run_reachable)

lemma example_blank_draft_reachable: "reachable exampleQuestions exampleBlankDraft"
  using reachable.mounted example_blank_draft_run by (rule run_reachable)

lemma isMcOrOx_iff: "isMcOrOx q \<longleftrightarrow> questionType q \<noteq> ShortAnswer"
  by (cases "questionType q") (simp_all add: isMcOrOx_def)

section \<open>Checked questions are locked\<close>


lemma fire_checked_mono:
  assumes "fire qs ev st = Inr st'" and "js_get (checkedStates st) i = Val True"
  shows "js_get (checkedStates st') i = Val True"
  using assms by (cases rule: fire_cases) (auto simp: js_get_js_set)

lemma fire_answer_frozen:
  assumes "fire qs ev st = Inr st'" and "js_get (checkedStates st) i = Val True"
  shows "js_get (userAnswers st') i = js_get (userAnswers st) i"
  using assms by (cases rule: fire_cases) (auto simp: js_get_js_set isAnswerChecked_def)

lemma run_checked_mono:
  "run qs evs st = Inr st' \<Longrightarrow> js_get (checkedStates st) i = Val True
   \<Longrightarrow> js_get (checkedStates st') i = Val True"
proof (induction evs arbitrary: st)
  case Nil
  then show ?case by simp
next
  case (Cons ev evs)
  from Cons.prems(1) obtain st1 where f: "fire qs ev st = Inr st1" and r: "run qs evs st1 = Inr st'"
    by (auto split: sum.splits)
  from f Cons.prems(2) have "js_get (checkedStates st1) i = Val True" by (rule fire_checked_mono)
  with r show ?case by (rule Cons.IH)
qed

lemma run_answer_frozen:
  "run qs evs st = Inr st' \<Longrightarrow> js_get (checkedStates st) i = Val True
   \<Longrightarrow> js_get (userAnswers st') i = js_get (userAnswers st) i"
proof (induction evs arbitrary: st)
  case Nil
  then show ?case by simp
next
  case (Cons ev evs)
  from Cons.prems(1) obtain st1 where f: "fire qs ev st = Inr st1" and r: "run qs evs st1 = Inr st'"
    by (auto split: sum.splits)
  from f Cons.prems(2) have c: "js_get (checkedStates st1) i = Val True" by (rule fire_checked_mono)
  from f Cons.prems(2) have "js_get (userAnswers st1) i = js_get (userAnswers st) i"
    by (rule fire_answer_frozen)
  with Cons.IH[OF r c] show ?case by simp
qed

text \<open>
  C6. Once \<open>checkedStates[i]\<close> is true it stays true: after any sequence of events of the
  component, and after each of the six handlers called directly (\<open>handleAnswerSelect\<close>,
  \<open>handleShortAnswerChange\<close>, \<open>handleCheckAnswer\<close>, \<open>handleSelfAssessment\<close>,
  \<open>handlePrev\<close>, \<open>handleNext\<close>).
\<close>

theorem checked_states_permanent:
  assumes "js_get (checkedStates st) i = Val True"
  shows "(run questions evs st = Inr st' \<longrightarrow> js_get (checkedStates st') i = Val True)
     \<and> js_get (checkedStates (handleAnswerSelect v st)) i = Val True
     \<and> js_get (checkedStates (handleShortAnswerChange v st)) i = Val True
     \<and> js_get (checkedStates (handleCheckAnswer q st)) i = Val True
     \<and> js_get (checkedStates (handleSelfAssessment b st)) i = Val True
     \<and> js_get (checkedStates (handlePrev st)) i = Val True
     \<and> js_get (checkedStates (handleNext questions st)) i = Val True"
proof -
  have "run questions evs st = Inr st' \<longrightarrow> js_get (checkedStates st') i = Val True"
    using assms by (auto intro: run_checked_mono)
  moreover have "js_get (checkedStates (handleAnswerSelect v st)) i = Val True"
    using assms by (simp add: handleAnswerSelect_def)
  moreover have "js_get (checkedStates (handleShortAnswerChange v st)) i = Val True"
    using assms by (simp add: handleShortAnswerChange_def)
  moreover have "js_get (checkedStates (handleCheckAnswer q st)) i = Val True"
    using assms by (simp add: handleCheckAnswer_def Let_def js_get_js_set)
  moreover have "js_get (checkedStates (handleSelfAssessment b st)) i = Val True"
    using assms by (simp add: handleSelfAssessment_def)
  moreover have "js_get (checkedStates (handlePrev st)) i = Val True"
    using assms by (simp add: handlePrev_def)
  moreover have "js_get (checkedStates (handleNext questions st)) i = Val True"
    using assms by (simp add: handleNext_def Let_def)
  ultimately show ?thesis by blast
qed

lemma example_detour_run:
  "run exampleQuestions [ChangeShortAnswer (str ''x''), ClickCheckAnswer, ClickPrev, ClickOption 0]
     exampleAwaiting = Inr (exampleAwaiting\<lparr>currentQuestionIndex := 1, tempShortAnswer := []\<rparr>)"
  by code_simp

text \<open>
  C6 at the example session with the third question checked: after an input, a click on
  check, a click on previous and a click on an option, the third question is still checked.
\<close>

theorem checked_states_permanent_witness:
  "js_get (checkedStates exampleAwaiting) 2 = Val True
   \<and> (\<exists>st'. run exampleQuestions
               [ChangeShortAnswer (str ''x''), ClickCheckAnswer, ClickPrev, ClickOption 0]
               exampleAwaiting = Inr st'
             \<and> js_get (checkedStates st') 2 = Val True)"
proof -
  have h: "js_get (checkedStates exampleAwaiting) 2 = Val True"
    by (simp add: exampleAwaiting_def js_get_def)
  from checked_states_permanent[OF h] example_detour_run h show ?thesis by blast
qed

text \<open>
  C5. Once \<open>checkedStates[i]\<close> is true, \<open>userAnswers[i]\<close> is the same after any sequence
  of events of the component. At the checked question itself, \<open>handleAnswerSelect\<close> and
  \<open>handleShortAnswerChange\<close> return without a change, and a click on an option, an input
  in the text field and a click on check leave the whole state as it is.
\<close>

theorem checked_answer_frozen:
  assumes "js_get (checkedStates st) i = Val True"
  shows "(run questions evs st = Inr st' \<longrightarrow> js_get (userAnswers st') i = js_get (userAnswers st) i)
     \<and> (currentQuestionIndex st = i \<longrightarrow>
           handleAnswerSelect v st = st
           \<and> handleShortAnswerChange v st = st
           \<and> (i < length questions \<longrightarrow>
                fire questions (ClickOption k) st = Inr st
                \<and> fire questions (ChangeShortAnswer v) st = Inr st
                \<and> fire questions ClickCheckAnswer st = Inr st))"
proof -
  have "run questions evs st = Inr st' \<longrightarrow> js_get (userAnswers st') i = js_get (userAnswers st) i"
    using assms by (auto intro: run_answer_frozen)
  moreover have "handleAnswerSelect v st = st" "handleShortAnswerChange v st = st"
    if "currentQuestionIndex st = i"
    using assms that by (simp_all add: handleAnswerSelect_def handleShortAnswerChange_def isAnswerChecked_def)
  moreover have "fire questions (ClickOption k) st = Inr st"
    "fire questions (ChangeShortAnswer v) st = Inr st"
    "fire questions ClickCheckAnswer st = Inr st"
    if "currentQuestionIndex st = i" "i < length questions"
    using assms that by (simp_all add: fire_def currentQuestion_def isAnswerChecked_def)
  ultimately show ?thesis by blast
qed

text \<open>
  C5 at the example session with the short answer checked: an input after the check
  changes nothing, and the committed answer survives the same four events.
\<close>

theorem checked_answer_frozen_witness:
  "js_get (checkedStates exampleAwaiting) 2 = Val True
   \<and> currentQuestionIndex exampleAwaiting = 2
   \<and> 2 < length exampleQuestions
   \<and> fire exampleQuestions (ChangeShortAnswer (str ''x'')) exampleAwaiting = Inr exampleAwaiting
   \<and> (\<exists>st'. run exampleQuestions
               [ChangeShortAnswer (str ''x''), ClickCheckAnswer, ClickPrev, ClickOption 0]
               exampleAwaiting = Inr st'
             \<and> js_get (userAnswers st') 2 = js_get (userAnswers exampleAwaiting) 2)"
proof -
  have h: "js_get (checkedStates exampleAwaiting) 2 = Val True"
    and h2: "currentQuestionIndex exampleAwaiting = 2"
    and h3: "2 < length exampleQuestions"
    by (simp_all add: exampleAwaiting_def exampleQuestions_def js_get_def)
  from checked_answer_frozen[OF h, of exampleQuestions] example_detour_run h h2 h3
  show ?thesis by blast
qed

section \<open>The guards of checking, self-assessment and completion\<close>

text \<open>
  The three handlers carry no guard of their own for these conditions: called directly,
  \<open>handleCheckAnswer\<close> checks the question whatever the answer, \<open>handleSelfAssessment\<close>
  writes whatever the question type, and \<open>handleNext\<close> at the last index completes the
  session. The guards are the drawn and enabled controls, which \<open>dispatch\<close> models.
\<close>

lemma handlers_unguarded:
  "js_get (checkedStates (handleCheckAnswer q st)) (currentQuestionIndex st) = Val True"
  "js_get (selfAssessedCorrectness (handleSelfAssessment b st)) (currentQuestionIndex st) = Val b"
  "Suc (currentQuestionIndex st) = length qs \<Longrightarrow> showResults (handleNext qs st)"
  by (simp_all add: handleCheckAnswer_def handleSelfAssessment_def handleNext_last Let_def
      js_get_js_set)

text \<open>
  C4. At an unchecked question with no answer (\<open>userAnswers[i]\<close> is \<open>null\<close> for a
  multiple-choice or ox question, the trimmed draft is empty for another question) the
  check button is disabled, and a click on it changes nothing: the question stays
  unchecked and its answer is what it was.
\<close>

theorem check_without_answer_is_noop:
  assumes "currentQuestionIndex st < length questions"
    and "\<not> isAnswerChecked st"
    and "(isMcOrOx (questions ! currentQuestionIndex st) \<and> userAnswer st = Null)
         \<or> (\<not> isMcOrOx (questions ! currentQuestionIndex st) \<and> trim (tempShortAnswer st) = [])"
  shows "\<exists>st'. fire questions ClickCheckAnswer st = Inr st'
           \<and> st' = st
           \<and> \<not> isAnswerChecked st'
           \<and> userAnswer st' = userAnswer st"
proof -
  from assms(3) have "isCheckAnswerDisabled (questions ! currentQuestionIndex st) st"
    by (auto simp: isCheckAnswerDisabled_def hasAnswer_def)
  with assms(1) have "fire questions ClickCheckAnswer st = Inr st"
    by (simp add: fire_def currentQuestion_def)
  with assms(2) show ?thesis by simp
qed

text \<open>
  C4 at the first question of the example session, unanswered, and at its third question
  with a draft of one space.
\<close>

theorem check_without_answer_is_noop_witness:
  "currentQuestionIndex (initialState exampleQuestions) < length exampleQuestions
   \<and> \<not> isAnswerChecked (initialState exampleQuestions)
   \<and> isMcOrOx (exampleQuestions ! currentQuestionIndex (initialState exampleQuestions))
   \<and> userAnswer (initialState exampleQuestions) = Null
   \<and> fire exampleQuestions ClickCheckAnswer (initialState exampleQuestions)
       = Inr (initialState exampleQuestions)
   \<and> currentQuestionIndex exampleBlankDraft < length exampleQuestions
   \<and> \<not> isAnswerChecked exampleBlankDraft
   \<and> \<not> isMcOrOx (exampleQuestions ! currentQuestionIndex exampleBlankDraft)
   \<and> trim (tempShortAnswer exampleBlankDraft) = []
   \<and> fire exampleQuestions ClickCheckAnswer exampleBlankDraft = Inr exampleBlankDraft"
proof -
  have a1: "currentQuestionIndex (initialState exampleQuestions) < length exampleQuestions"
    and a2: "\<not> isAnswerChecked (initialState exampleQuestions)"
    and a3: "isMcOrOx (exampleQuestions ! currentQuestionIndex (initialState exampleQuestions))"
    and a4: "userAnswer (initialState exampleQuestions) = Null"
    by (simp_all add: initialState_def exampleQuestions_def isAnswerChecked_def isMcOrOx_def
        userAnswer_def js_get_def)
  have b1: "currentQuestionIndex exampleBlankDraft < length exampleQuestions"
    and b2: "\<not> isAnswerChecked exampleBlankDraft"
    and b3: "\<not> isMcOrOx (exampleQuestions ! currentQuestionIndex exampleBlankDraft)"
    and b4: "trim (tempShortAnswer exampleBlankDraft) = []"
    by (simp_all add: exampleBlankDraft_def exampleQuestions_def isAnswerChecked_def isMcOrOx_def
        js_get_def trim_def str_def isWhiteSpace_def)
  from a3 a4 have a: "(isMcOrOx (exampleQuestions ! currentQuestionIndex (initialState exampleQuestions))
        \<and> userAnswer (initialState exampleQuestions) = Null)
      \<or> (\<not> isMcOrOx (exampleQuestions ! currentQuestionIndex (initialState exampleQuestions))
        \<and> trim (tempShortAnswer (initialState exampleQuestions)) = [])"
    by blast
  from b3 b4 have b: "(isMcOrOx (exampleQuestions ! currentQuestionIndex exampleBlankDraft)
        \<and> userAnswer exampleBlankDraft = Null)
      \<or> (\<not> isMcOrOx (exampleQuestions ! currentQuestionIndex exampleBlankDraft)
        \<and> trim (tempShortAnswer exampleBlankDraft) = [])"
    by blast
  from check_without_answer_is_noop[OF a1 a2 a] check_without_answer_is_noop[OF b1 b2 b]
    a1 a2 a3 a4 b1 b2 b3 b4
  show ?thesis by simp
qed

text \<open>
  C8. In every reachable state the self-assessment of a multiple-choice or ox question is
  \<open>null\<close>; at such a question no self-assessment button is drawn, and the event has no
  effect.
\<close>

theorem auto_graded_never_self_assessed:
  assumes "reachable questions st" and "i < length questions"
    and "questionType (questions ! i) = MultipleChoice \<or> questionType (questions ! i) = Ox"
  shows "js_get (selfAssessedCorrectness st) i = Null
     \<and> (currentQuestionIndex st = i \<longrightarrow> fire questions (ClickSelfAssessment b) st = Inr st)"
proof -
  from assms(3) have mc: "isMcOrOx (questions ! i)" by (simp add: isMcOrOx_def)
  with assms(1,2) have "js_get (selfAssessedCorrectness st) i = Null"
    by (rule reachable_auto_graded)
  moreover have "fire questions (ClickSelfAssessment b) st = Inr st" if "currentQuestionIndex st = i"
    using that mc assms(2) by (simp add: fire_def currentQuestion_def)
  ultimately show ?thesis by blast
qed

text \<open>C8 at the first question of the example session, checked.\<close>

theorem auto_graded_never_self_assessed_witness:
  "reachable exampleQuestions exampleFirstChecked
   \<and> 0 < length exampleQuestions
   \<and> questionType (exampleQuestions ! 0) = MultipleChoice
   \<and> currentQuestionIndex exampleFirstChecked = 0
   \<and> isAnswerChecked exampleFirstChecked
   \<and> js_get (selfAssessedCorrectness exampleFirstChecked) 0 = Null
   \<and> fire exampleQuestions (ClickSelfAssessment True) exampleFirstChecked = Inr exampleFirstChecked"
proof -
  have h2: "0 < length exampleQuestions"
    and h3: "questionType (exampleQuestions ! 0) = MultipleChoice"
    and h4: "currentQuestionIndex exampleFirstChecked = 0"
    and h5: "isAnswerChecked exampleFirstChecked"
    by (simp_all add: exampleQuestions_def exampleFirstChecked_def isAnswerChecked_def js_get_def)
  from h3 have h3': "questionType (exampleQuestions ! 0) = MultipleChoice
      \<or> questionType (exampleQuestions ! 0) = Ox" by simp
  from auto_graded_never_self_assessed[OF example_first_checked_reachable h2 h3', of True]
    example_first_checked_reachable h2 h3 h4 h5
  show ?thesis by simp
qed

text \<open>
  C3. In a reachable state at the last question, when that question is short-answer,
  checked and without self-assessment, the session is not completed, no report has been
  submitted, and a click on next changes nothing (the button is disabled). In a completed
  reachable state every checked short-answer question carries a self-assessment.
\<close>

theorem completion_needs_self_assessment:
  assumes "questions \<noteq> []" and "reachable questions st"
  shows "(Suc (currentQuestionIndex st) = length questions
          \<and> questionType (questions ! currentQuestionIndex st) = ShortAnswer
          \<and> js_get (checkedStates st) (currentQuestionIndex st) = Val True
          \<and> js_get (selfAssessedCorrectness st) (currentQuestionIndex st) = Null
        \<longrightarrow> \<not> showResults st \<and> submitted st = []
            \<and> fire questions ClickNext st = Inr st)
     \<and> (showResults st \<longrightarrow>
          (\<forall>i<length questions.
              questionType (questions ! i) = ShortAnswer
              \<and> js_get (checkedStates st) i = Val True
            \<longrightarrow> (\<exists>b. js_get (selfAssessedCorrectness st) i = Val b)))"
proof (intro conjI impI allI)
  assume h: "Suc (currentQuestionIndex st) = length questions
          \<and> questionType (questions ! currentQuestionIndex st) = ShortAnswer
          \<and> js_get (checkedStates st) (currentQuestionIndex st) = Val True
          \<and> js_get (selfAssessedCorrectness st) (currentQuestionIndex st) = Null"
  then have idx: "currentQuestionIndex st < length questions" by simp
  from h have sa: "\<not> isMcOrOx (questions ! currentQuestionIndex st)"
    by (simp add: isMcOrOx_iff)
  show nr: "\<not> showResults st"
  proof
    assume "showResults st"
    with assms(2) idx have "settled questions st (currentQuestionIndex st)"
      by (simp add: reachable_settled)
    with sa h show False by (simp add: settled_def)
  qed
  with reachable_completed[OF assms(2)] show "submitted st = []" by simp
  from h sa have "isNextButtonDisabled (questions ! currentQuestionIndex st) st"
    by (simp add: isNextButtonDisabled_def isAnswerChecked_def)
  with idx show "fire questions ClickNext st = Inr st"
    by (simp add: fire_def currentQuestion_def)
next
  fix i
  assume sr: "showResults st" and i: "i < length questions"
    and q: "questionType (questions ! i) = ShortAnswer \<and> js_get (checkedStates st) i = Val True"
  from assms(2) i sr have "settled questions st i" by (simp add: reachable_settled)
  with q show "\<exists>b. js_get (selfAssessedCorrectness st) i = Val b"
    by (simp add: settled_def isMcOrOx_iff)
qed

text \<open>
  C3 at the example session: with the short answer checked and unassessed the click on
  next is without effect; in the final state the short answer is assessed.
\<close>

theorem completion_needs_self_assessment_witness:
  "exampleQuestions \<noteq> []
   \<and> reachable exampleQuestions exampleAwaiting
   \<and> Suc (currentQuestionIndex exampleAwaiting) = length exampleQuestions
   \<and> questionType (exampleQuestions ! currentQuestionIndex exampleAwaiting) = ShortAnswer
   \<and> js_get (checkedStates exampleAwaiting) (currentQuestionIndex exampleAwaiting) = Val True
   \<and> js_get (selfAssessedCorrectness exampleAwaiting) (currentQuestionIndex exampleAwaiting) = Null
   \<and> \<not> showResults exampleAwaiting
   \<and> submitted exampleAwaiting = []
   \<and> fire exampleQuestions ClickNext exampleAwaiting = Inr exampleAwaiting
   \<and> reachable exampleQuestions exampleFinal
   \<and> showResults exampleFinal
   \<and> 2 < length exampleQuestions
   \<and> questionType (exampleQuestions ! 2) = ShortAnswer
   \<and> js_get (checkedStates exampleFinal) 2 = Val True
   \<and> (\<exists>b. js_get (selfAssessedCorrectness exampleFinal) 2 = Val b)"
proof -
  have h: "Suc (currentQuestionIndex exampleAwaiting) = length exampleQuestions
      \<and> questionType (exampleQuestions ! currentQuestionIndex exampleAwaiting) = ShortAnswer
      \<and> js_get (checkedStates exampleAwaiting) (currentQuestionIndex exampleAwaiting) = Val True
      \<and> js_get (selfAssessedCorrectness exampleAwaiting) (currentQuestionIndex exampleAwaiting) = Null"
    by (simp add: exampleAwaiting_def exampleQuestions_def js_get_def)
  have g: "showResults exampleFinal \<and> 2 < length exampleQuestions
      \<and> questionType (exampleQuestions ! 2) = ShortAnswer
      \<and> js_get (checkedStates exampleFinal) 2 = Val True"
    by (simp add: exampleFinal_def exampleAssessed_def exampleAwaiting_def exampleQuestions_def
        js_get_def)
  from completion_needs_self_assessment[OF example_nonempty example_awaiting_reachable]
    completion_needs_self_assessment[OF example_nonempty example_final_reachable]
    example_nonempty example_awaiting_reachable example_final_reachable h g
  show ?thesis by blast
qed

section \<open>Navigation\<close>

lemma fire_index_step:
  assumes "fire qs ev st = Inr st'"
  shows "currentQuestionIndex st' = currentQuestionIndex st
     \<or> ev = ClickNext \<and> currentQuestionIndex st' = currentQuestionIndex st + 1
     \<or> ev = ClickPrev \<and> currentQuestionIndex st' + 1 = currentQuestionIndex st"
  using assms by (cases rule: fire_cases) auto

lemma fire_prev:
  assumes "currentQuestionIndex st < length qs" and "0 < currentQuestionIndex st"
    and "\<not> showResults st"
  shows "\<exists>st'. fire qs ClickPrev st = Inr st'
           \<and> currentQuestionIndex st' = currentQuestionIndex st - 1"
  using assms
  by (auto simp: fire_def currentQuestion_def handlePrev_def syncTempShortAnswer_def Let_def)

lemma fire_next_below_last:
  assumes "Suc (currentQuestionIndex st) < length qs" and "\<not> showResults st"
    and "isAnswerChecked st" and "\<not> isNextButtonDisabled (qs ! currentQuestionIndex st) st"
  shows "\<exists>st'. fire qs ClickNext st = Inr st'
           \<and> currentQuestionIndex st' = currentQuestionIndex st + 1 \<and> \<not> showResults st'"
proof -
  from assms(1) have "handleNext qs st = st\<lparr>currentQuestionIndex := currentQuestionIndex st + 1\<rparr>"
    by (simp add: handleNext_def)
  with assms show ?thesis
    by (simp add: fire_def currentQuestion_def syncTempShortAnswer_def Let_def)
qed

text \<open>
  C7. In every reachable state of a session over a non-empty question list:
  \<^item> the index is below the number of questions;
  \<^item> every event is handled without an exception and leaves the index as it is, or is a
    click on next that adds one, or a click on previous that subtracts one;
  \<^item> at index 0, \<open>handlePrev\<close> and the click on previous change nothing;
  \<^item> above index 0, \<open>handlePrev\<close> subtracts one, and so does the click on previous
    while the session is not completed;
  \<^item> below the last index, \<open>handleNext\<close> adds one, and so does the click on next when
    the button is drawn and enabled, without completing the session;
  \<^item> at the last index of a session that is not completed, with the button drawn and
    enabled, the click on next completes the session and submits the one and only report,
    and from then on no event changes the state;
  \<^item> the number of submitted reports is 1 when the session is completed and 0 otherwise.
\<close>

theorem navigation_bounds:
  assumes "questions \<noteq> []" and "reachable questions st"
  shows "currentQuestionIndex st < length questions
     \<and> (\<exists>st'. fire questions ev st = Inr st'
           \<and> (currentQuestionIndex st' = currentQuestionIndex st
               \<or> ev = ClickNext \<and> currentQuestionIndex st' = currentQuestionIndex st + 1
               \<or> ev = ClickPrev \<and> currentQuestionIndex st' + 1 = currentQuestionIndex st))
     \<and> (currentQuestionIndex st = 0 \<longrightarrow>
           handlePrev st = st \<and> fire questions ClickPrev st = Inr st)
     \<and> (0 < currentQuestionIndex st \<longrightarrow>
           currentQuestionIndex (handlePrev st) = currentQuestionIndex st - 1
           \<and> (\<not> showResults st \<longrightarrow>
                (\<exists>st'. fire questions ClickPrev st = Inr st'
                    \<and> currentQuestionIndex st' = currentQuestionIndex st - 1)))
     \<and> (Suc (currentQuestionIndex st) < length questions \<longrightarrow>
           currentQuestionIndex (handleNext questions st) = currentQuestionIndex st + 1
           \<and> (isAnswerChecked st
                \<and> \<not> isNextButtonDisabled (questions ! currentQuestionIndex st) st \<longrightarrow>
                (\<exists>st'. fire questions ClickNext st = Inr st'
                    \<and> currentQuestionIndex st' = currentQuestionIndex st + 1
                    \<and> \<not> showResults st')))
     \<and> (Suc (currentQuestionIndex st) = length questions \<and> \<not> showResults st
          \<and> isAnswerChecked st
          \<and> \<not> isNextButtonDisabled (questions ! currentQuestionIndex st) st \<longrightarrow>
           (\<exists>r. fire questions ClickNext st = Inr (st\<lparr>showResults := True, submitted := [r]\<rparr>))
           \<and> (\<forall>ev'. fire questions ev' (handleNext questions st) = Inr (handleNext questions st)))
     \<and> length (submitted st) = (if showResults st then 1 else 0)"
proof -
  from assms have wf: "wf questions st" by (rule reachable_wf)
  then have idx: "currentQuestionIndex st < length questions" by (simp add: wf_def)
  from reachable_completed[OF assms(2)]
  have once: "length (submitted st) = (if showResults st then 1 else 0)"
    and last: "showResults st \<longrightarrow> Suc (currentQuestionIndex st) = length questions"
    by simp_all
  from fire_total[OF wf] obtain st' where f: "fire questions ev st = Inr st'" by blast
  from f fire_index_step[OF f] have step: "\<exists>st'. fire questions ev st = Inr st'
           \<and> (currentQuestionIndex st' = currentQuestionIndex st
               \<or> ev = ClickNext \<and> currentQuestionIndex st' = currentQuestionIndex st + 1
               \<or> ev = ClickPrev \<and> currentQuestionIndex st' + 1 = currentQuestionIndex st)"
    by blast
  have prev0: "handlePrev st = st \<and> fire questions ClickPrev st = Inr st"
    if "currentQuestionIndex st = 0"
    using that idx by (simp add: handlePrev_def fire_def currentQuestion_def)
  have prev1: "currentQuestionIndex (handlePrev st) = currentQuestionIndex st - 1
           \<and> (\<not> showResults st \<longrightarrow>
                (\<exists>st'. fire questions ClickPrev st = Inr st'
                    \<and> currentQuestionIndex st' = currentQuestionIndex st - 1))"
    if "0 < currentQuestionIndex st"
    using that idx fire_prev[of st questions] by (simp add: handlePrev_def)
  have next1: "currentQuestionIndex (handleNext questions st) = currentQuestionIndex st + 1
           \<and> (isAnswerChecked st
                \<and> \<not> isNextButtonDisabled (questions ! currentQuestionIndex st) st \<longrightarrow>
                (\<exists>st'. fire questions ClickNext st = Inr st'
                    \<and> currentQuestionIndex st' = currentQuestionIndex st + 1
                    \<and> \<not> showResults st'))"
    if below: "Suc (currentQuestionIndex st) < length questions"
  proof -
    from below last have "\<not> showResults st" by auto
    with below fire_next_below_last[of st questions] show ?thesis
      by (simp add: handleNext_def)
  qed
  have finish: "(\<exists>r. fire questions ClickNext st = Inr (st\<lparr>showResults := True, submitted := [r]\<rparr>))
           \<and> (\<forall>ev'. fire questions ev' (handleNext questions st) = Inr (handleNext questions st))"
    if h: "Suc (currentQuestionIndex st) = length questions \<and> \<not> showResults st
          \<and> isAnswerChecked st
          \<and> \<not> isNextButtonDisabled (questions ! currentQuestionIndex st) st"
  proof -
    from h have f: "fire questions ClickNext st = Inr (handleNext questions st)"
      by (simp add: fire_next_at_last)
    from h once have "submitted st = []" by simp
    moreover from h obtain r where
      "handleNext questions st = st\<lparr>showResults := True, submitted := submitted st @ [r]\<rparr>"
      using handleNext_last_ex[of st questions] by blast
    ultimately have "handleNext questions st = st\<lparr>showResults := True, submitted := [r]\<rparr>"
      by simp
    with f have "\<exists>r. fire questions ClickNext st = Inr (st\<lparr>showResults := True, submitted := [r]\<rparr>)"
      by auto
    moreover from h have "showResults (handleNext questions st)" by (simp add: handleNext_last)
    then have "\<forall>ev'. fire questions ev' (handleNext questions st) = Inr (handleNext questions st)"
      by (simp add: fire_def)
    ultimately show ?thesis by blast
  qed
  from idx step prev0 prev1 next1 finish once show ?thesis by blast
qed

text \<open>
  C7 at the example session after the self-assessment: the index is 2, previous would
  lead to 1, and the click on next completes the session with one report.
\<close>

theorem navigation_bounds_witness:
  "exampleQuestions \<noteq> []
   \<and> reachable exampleQuestions exampleAssessed
   \<and> currentQuestionIndex exampleAssessed < length exampleQuestions
   \<and> 0 < currentQuestionIndex exampleAssessed
   \<and> currentQuestionIndex (handlePrev exampleAssessed) = currentQuestionIndex exampleAssessed - 1
   \<and> Suc (currentQuestionIndex exampleAssessed) = length exampleQuestions
   \<and> \<not> showResults exampleAssessed
   \<and> isAnswerChecked exampleAssessed
   \<and> \<not> isNextButtonDisabled (exampleQuestions ! currentQuestionIndex exampleAssessed) exampleAssessed
   \<and> (\<exists>r. fire exampleQuestions ClickNext exampleAssessed
            = Inr (exampleAssessed\<lparr>showResults := True, submitted := [r]\<rparr>))
   \<and> length (submitted exampleAssessed) = 0"
proof -
  have h: "0 < currentQuestionIndex exampleAssessed
      \<and> Suc (currentQuestionIndex exampleAssessed) = length exampleQuestions
      \<and> \<not> showResults exampleAssessed
      \<and> isAnswerChecked exampleAssessed
      \<and> \<not> isNextButtonDisabled (exampleQuestions ! currentQuestionIndex exampleAssessed) exampleAssessed"
    by (simp add: exampleAssessed_def exampleAwaiting_def exampleQuestions_def isAnswerChecked_def
        isNextButtonDisabled_def js_get_def)
  from navigation_bounds[OF example_nonempty example_assessed_reachable, of ClickNext] h
    example_nonempty example_assessed_reachable
  show ?thesis by simp
qed

end
